theory Spec2Isabelle
  imports Complex_Main "HOL-Library.Sublist"
begin

section \<open>Shared payload types\<close>

text \<open>
  The sync payloads exist twice in the repository, as Swift structs
  (\<^verbatim>\<open>ios-sync/HealthSync/Models.swift\<close>) and as TypeScript interfaces
  (the sync handler's \<^verbatim>\<open>route.ts\<close>), with the same fields. The only
  difference is the type of the time stamps (\<^verbatim>\<open>Date\<close> on the phone, the
  ISO-8601 \<^verbatim>\<open>string\<close> on the server), which is the type parameter \<open>'t\<close>.

  A JavaScript \<^verbatim>\<open>number\<close> and a Swift \<^verbatim>\<open>Double\<close> that travel
  through JSON are finite; they are modelled by the rational they denote. Zero and negative
  zero are the same rational: both are falsy in JavaScript and both print as \<^verbatim>\<open>0\<close>.
  An optional field (\<^verbatim>\<open>value?: number\<close>, \<^verbatim>\<open>let value: Double?\<close>) is
  an \<open>option\<close>; \<open>None\<close> is JavaScript's \<^verbatim>\<open>undefined\<close> (the key is
  absent, which is how Swift's encoder writes \<^verbatim>\<open>nil\<close>).
\<close>

type_synonym number = rat

record 't HealthRecordPayload =
  recordType :: string
  sourceName :: string
  sourceBundle :: "string option"
  rvalue :: "number option"
  valueText :: "string option"
  unit :: "string option"
  startTime :: 't
  endTime :: 't
  metadata :: "(string \<times> string) list option"

record 't WorkoutPayload =
  workoutType :: string
  wSourceName :: string
  wSourceBundle :: "string option"
  wStartTime :: 't
  wEndTime :: 't
  durationSeconds :: number
  totalDistance :: "number option"
  totalEnergyBurned :: "number option"
  statistics :: "(string \<times> number) list option"
  wMetadata :: "(string \<times> string) list option"

record 't SyncBatch =
  dataType :: string
  records :: "'t HealthRecordPayload list option"
  workouts :: "'t WorkoutPayload list option"
  deletedUUIDs :: "string list"
  deviceId :: string
  timestamp :: 't

text \<open>An optional array read as \<^verbatim>\<open>xs ?? []\<close>.\<close>

definition the_list :: "'a list option \<Rightarrow> 'a list" where
  "the_list xs = (case xs of None \<Rightarrow> [] | Some l \<Rightarrow> l)"

section \<open>The ingestion endpoint (\<^verbatim>\<open>route.ts\<close>)\<close>

subsection \<open>What the handler takes from outside\<close>

text \<open>
  The handler calls into the JavaScript runtime (\<^verbatim>\<open>createHash("sha256")\<close>, the
  conversion of a number inside a template literal, \<^verbatim>\<open>JSON.stringify\<close>), reads
  one environment variable and talks to PostgreSQL. The table definitions
  (\<^verbatim>\<open>sql/schema.sql\<close>) are not among the sources: the checks that make an
  \<^verbatim>\<open>INSERT\<close> raise (a \<^verbatim>\<open>NOT NULL\<close> or \<^verbatim>\<open>CHECK\<close> constraint, a
  text that is no timestamp) are the parameters \<open>health_raw_rejects\<close> and
  \<open>workouts_rejects\<close>, each returning the error PostgreSQL raises for a row, if any.
  Such checks look at the row alone. The only uniqueness constraints the handler relies on
  are the ones its statements name: \<^verbatim>\<open>ON CONFLICT (record_hash)\<close> and
  \<^verbatim>\<open>ON CONFLICT (workout_hash)\<close>.
\<close>

record health_raw_row =
  record_type :: string
  source_name :: string
  source_bundle_id :: "string option"
  unit_col :: "string option"
  value_numeric :: "number option"
  value_text :: "string option"
  start_time :: string
  end_time :: string
  metadata_col :: "string option"
  record_hash :: string

record workouts_row =
  workout_type :: string
  w_source_name :: string
  w_source_bundle_id :: "string option"
  w_start_time :: string
  w_end_time :: string
  duration_seconds :: number
  total_distance :: "number option"
  total_distance_unit :: "string option"
  total_energy_burned :: "number option"
  total_energy_unit :: "string option"
  avg_heart_rate :: "number option"
  min_heart_rate :: "number option"
  max_heart_rate :: "number option"
  w_metadata_col :: "string option"
  workout_hash :: string

record server_env =
  SYNC_API_SECRET :: "string option"
  sha256_hex :: "string \<Rightarrow> string"
  Number_toString :: "number \<Rightarrow> string"
  JSON_stringify :: "(string \<times> string) list \<Rightarrow> string"
  pool_connect_error :: "string option"
  health_raw_rejects :: "health_raw_row \<Rightarrow> string option"
  workouts_rejects :: "workouts_row \<Rightarrow> string option"

text \<open>\<^verbatim>\<open>const API_SECRET = process.env.SYNC_API_SECRET || "CHANGE_ME"\<close>: an unset
  and an empty variable are both falsy.\<close>

definition API_SECRET :: "server_env \<Rightarrow> string" where
  "API_SECRET env =
     (case SYNC_API_SECRET env of
        None \<Rightarrow> ''CHANGE_ME''
      | Some s \<Rightarrow> if s = [] then ''CHANGE_ME'' else s)"

subsection \<open>Content hashes\<close>

text \<open>\<^verbatim>\<open>record.value ?? record.valueText\<close> inside a template literal: the number
  when there is one, else the text, else the word \<^verbatim>\<open>undefined\<close>.\<close>

definition value_or_valueText :: "server_env \<Rightarrow> string HealthRecordPayload \<Rightarrow> string" where
  "value_or_valueText env r =
     (case rvalue r of
        Some v \<Rightarrow> Number_toString env v
      | None \<Rightarrow> (case valueText r of Some t \<Rightarrow> t | None \<Rightarrow> ''undefined''))"

definition generateRecordHash :: "server_env \<Rightarrow> string HealthRecordPayload \<Rightarrow> string" where
  "generateRecordHash env r =
     sha256_hex env
       (recordType r @ ''|'' @ sourceName r @ ''|'' @ startTime r @ ''|'' @ endTime r @ ''|''
          @ value_or_valueText env r)"

definition generateWorkoutHash :: "server_env \<Rightarrow> string WorkoutPayload \<Rightarrow> string" where
  "generateWorkoutHash env w =
     sha256_hex env
       (workoutType w @ ''|'' @ wSourceName w @ ''|'' @ wStartTime w @ ''|'' @ wEndTime w @ ''|''
          @ Number_toString env (durationSeconds w))"

subsection \<open>The database and one pooled connection\<close>

record db =
  health_raw :: "health_raw_row list"
  workouts_tbl :: "workouts_row list"

text \<open>
  A connection sees the committed tables (\<open>store\<close>) and, between \<^verbatim>\<open>BEGIN\<close> and
  \<^verbatim>\<open>COMMIT\<close>/\<^verbatim>\<open>ROLLBACK\<close>, its own working copy (\<open>tx\<close>). Statements
  outside a transaction commit at once.
\<close>

record pg_client =
  store :: db
  tx :: "db option"

definition query_BEGIN :: "pg_client \<Rightarrow> pg_client" where
  "query_BEGIN c = (case tx c of None \<Rightarrow> c\<lparr>tx := Some (store c)\<rparr> | Some _ \<Rightarrow> c)"

definition query_COMMIT :: "pg_client \<Rightarrow> pg_client" where
  "query_COMMIT c = (case tx c of None \<Rightarrow> c | Some w \<Rightarrow> c\<lparr>store := w, tx := None\<rparr>)"

definition query_ROLLBACK :: "pg_client \<Rightarrow> pg_client" where
  "query_ROLLBACK c = c\<lparr>tx := None\<rparr>"

definition visible :: "pg_client \<Rightarrow> db" where
  "visible c = (case tx c of None \<Rightarrow> store c | Some w \<Rightarrow> w)"

definition write_back :: "pg_client \<Rightarrow> db \<Rightarrow> pg_client" where
  "write_back c d = (case tx c of None \<Rightarrow> c\<lparr>store := d\<rparr> | Some _ \<Rightarrow> c\<lparr>tx := Some d\<rparr>)"

text \<open>The parameter lists of the two \<^verbatim>\<open>INSERT\<close> statements, column by column.
  \<^verbatim>\<open>x ? "mi" : null\<close> tests truthiness: an absent number and zero are falsy.\<close>

definition truthy :: "number option \<Rightarrow> bool" where
  "truthy x = (case x of None \<Rightarrow> False | Some v \<Rightarrow> v \<noteq> 0)"

definition stat :: "string WorkoutPayload \<Rightarrow> string \<Rightarrow> number option" where
  "stat w k = (case statistics w of None \<Rightarrow> None | Some st \<Rightarrow> map_of st k)"

definition record_row :: "server_env \<Rightarrow> string HealthRecordPayload \<Rightarrow> string \<Rightarrow> health_raw_row" where
  "record_row env r hash =
     \<lparr> record_type = recordType r,
       source_name = sourceName r,
       source_bundle_id = sourceBundle r,
       unit_col = unit r,
       value_numeric = rvalue r,
       value_text = valueText r,
       start_time = startTime r,
       end_time = endTime r,
       metadata_col = (case metadata r of Some m \<Rightarrow> Some (JSON_stringify env m) | None \<Rightarrow> None),
       record_hash = hash \<rparr>"

definition workout_row :: "server_env \<Rightarrow> string WorkoutPayload \<Rightarrow> string \<Rightarrow> workouts_row" where
  "workout_row env w hash =
     \<lparr> workout_type = workoutType w,
       w_source_name = wSourceName w,
       w_source_bundle_id = wSourceBundle w,
       w_start_time = wStartTime w,
       w_end_time = wEndTime w,
       duration_seconds = durationSeconds w,
       total_distance = totalDistance w,
       total_distance_unit = (if truthy (totalDistance w) then Some ''mi'' else None),
       total_energy_burned = totalEnergyBurned w,
       total_energy_unit = (if truthy (totalEnergyBurned w) then Some ''kcal'' else None),
       avg_heart_rate = stat w ''heartRateAvg'',
       min_heart_rate = stat w ''heartRateMin'',
       max_heart_rate = stat w ''heartRateMax'',
       w_metadata_col = (case wMetadata w of Some m \<Rightarrow> Some (JSON_stringify env m) | None \<Rightarrow> None),
       workout_hash = hash \<rparr>"

text \<open>
  \<^verbatim>\<open>INSERT ... ON CONFLICT (record_hash) DO NOTHING RETURNING id\<close>: the statement
  raises when the row breaks a constraint, returns no row when the hash is already in the
  table, and otherwise appends the row and returns one. The result is the
  \<^verbatim>\<open>rowCount\<close> and the connection afterwards.
\<close>

definition insert_health_raw ::
  "server_env \<Rightarrow> health_raw_row \<Rightarrow> pg_client \<Rightarrow> string + (nat \<times> pg_client)" where
  "insert_health_raw env row c =
     (case health_raw_rejects env row of
        Some e \<Rightarrow> Inl e
      | None \<Rightarrow>
          let d = visible c in
          if record_hash row \<in> set (map record_hash (health_raw d)) then Inr (0, c)
          else Inr (1, write_back c (d\<lparr>health_raw := health_raw d @ [row]\<rparr>)))"

definition insert_workouts ::
  "server_env \<Rightarrow> workouts_row \<Rightarrow> pg_client \<Rightarrow> string + (nat \<times> pg_client)" where
  "insert_workouts env row c =
     (case workouts_rejects env row of
        Some e \<Rightarrow> Inl e
      | None \<Rightarrow>
          let d = visible c in
          if workout_hash row \<in> set (map workout_hash (workouts_tbl d)) then Inr (0, c)
          else Inr (1, write_back c (d\<lparr>workouts_tbl := workouts_tbl d @ [row]\<rparr>)))"

subsection \<open>The handler\<close>

record counters =
  insertedRecords :: nat
  insertedWorkouts :: nat
  skippedDuplicates :: nat

datatype response =
  Unauthorized_401
  | SyncFailed_500 string
  | Success_200 counters

record request =
  authorization :: "string option"
  json :: "string + string SyncBatch"

text \<open>\<^verbatim>\<open>!authHeader?.startsWith("Bearer ") || authHeader.slice(7) !== API_SECRET\<close>\<close>

definition unauthorized :: "server_env \<Rightarrow> request \<Rightarrow> bool" where
  "unauthorized env req =
     (case authorization req of
        None \<Rightarrow> True
      | Some h \<Rightarrow> \<not> prefix ''Bearer '' h \<or> drop 7 h \<noteq> API_SECRET env)"

text \<open>The two \<^verbatim>\<open>for ... of\<close> loops. A raised error leaves the loop with the
  connection as it is at that moment.\<close>

fun insert_records ::
  "server_env \<Rightarrow> string HealthRecordPayload list \<Rightarrow> pg_client \<times> counters
     \<Rightarrow> (string \<times> pg_client) + (pg_client \<times> counters)" where
  "insert_records env [] (c, k) = Inr (c, k)"
| "insert_records env (r # rs) (c, k) =
     (case insert_health_raw env (record_row env r (generateRecordHash env r)) c of
        Inl e \<Rightarrow> Inl (e, c)
      | Inr (rowCount, c') \<Rightarrow>
          insert_records env rs
            (c', if rowCount > 0 then k\<lparr>insertedRecords := insertedRecords k + 1\<rparr>
                 else k\<lparr>skippedDuplicates := skippedDuplicates k + 1\<rparr>))"

fun insert_workout_list ::
  "server_env \<Rightarrow> string WorkoutPayload list \<Rightarrow> pg_client \<times> counters
     \<Rightarrow> (string \<times> pg_client) + (pg_client \<times> counters)" where
  "insert_workout_list env [] (c, k) = Inr (c, k)"
| "insert_workout_list env (w # ws) (c, k) =
     (case insert_workouts env (workout_row env w (generateWorkoutHash env w)) c of
        Inl e \<Rightarrow> Inl (e, c)
      | Inr (rowCount, c') \<Rightarrow>
          insert_workout_list env ws
            (c', if rowCount > 0 then k\<lparr>insertedWorkouts := insertedWorkouts k + 1\<rparr>
                 else k\<lparr>skippedDuplicates := skippedDuplicates k + 1\<rparr>))"

text \<open>The body of the inner \<^verbatim>\<open>try\<close>, from \<^verbatim>\<open>BEGIN\<close> up to (not
  including) \<^verbatim>\<open>COMMIT\<close>.\<close>

definition run_inserts ::
  "server_env \<Rightarrow> string SyncBatch \<Rightarrow> pg_client \<Rightarrow> (string \<times> pg_client) + (pg_client \<times> counters)" where
  "run_inserts env batch c0 =
     (let c1 = query_BEGIN c0;
          k0 = \<lparr>insertedRecords = 0, insertedWorkouts = 0, skippedDuplicates = 0\<rparr>;
          after_records =
            (case records batch of
               Some rs \<Rightarrow> if length rs > 0 then insert_records env rs (c1, k0) else Inr (c1, k0)
             | None \<Rightarrow> Inr (c1, k0))
      in case after_records of
           Inl err \<Rightarrow> Inl err
         | Inr (c2, k2) \<Rightarrow>
             (case workouts batch of
                Some ws \<Rightarrow>
                  if length ws > 0 then insert_workout_list env ws (c2, k2) else Inr (c2, k2)
              | None \<Rightarrow> Inr (c2, k2)))"

text \<open>
  \<^verbatim>\<open>POST\<close>: the response and the committed tables after the request. The
  connection is fresh from the pool, so it starts outside a transaction.
\<close>

definition POST :: "server_env \<Rightarrow> request \<Rightarrow> db \<Rightarrow> response \<times> db" where
  "POST env req d =
     (if unauthorized env req then (Unauthorized_401, d)
      else case json req of
        Inl e \<Rightarrow> (SyncFailed_500 e, d)
      | Inr batch \<Rightarrow>
          (case pool_connect_error env of
             Some e \<Rightarrow> (SyncFailed_500 e, d)
           | None \<Rightarrow>
               (case run_inserts env batch \<lparr>store = d, tx = None\<rparr> of
                  Inl (e, c) \<Rightarrow> (SyncFailed_500 e, store (query_ROLLBACK c))
                | Inr (c, k) \<Rightarrow> (Success_200 k, store (query_COMMIT c)))))"

section \<open>The phone: HealthKit types and payload conversion (\<^verbatim>\<open>Models.swift\<close>)\<close>

text \<open>A \<^verbatim>\<open>Date\<close> is its number of seconds since 1970; only its order matters here.
  A query anchor and an archived \<^verbatim>\<open>Data\<close> blob are opaque tokens.\<close>

type_synonym Double = rat
type_synonym Date = rat
type_synonym HKQueryAnchor = nat
type_synonym Data = nat

datatype HealthDataType =
  stepCount | heartRate | activeEnergyBurned | workout | sleepAnalysis | bodyMass | vo2Max

definition allCases :: "HealthDataType list" where
  "allCases = [stepCount, heartRate, activeEnergyBurned, workout, sleepAnalysis, bodyMass, vo2Max]"

fun rawValue :: "HealthDataType \<Rightarrow> string" where
  "rawValue stepCount = ''HKQuantityTypeIdentifierStepCount''"
| "rawValue heartRate = ''HKQuantityTypeIdentifierHeartRate''"
| "rawValue activeEnergyBurned = ''HKQuantityTypeIdentifierActiveEnergyBurned''"
| "rawValue workout = ''HKWorkoutType''"
| "rawValue sleepAnalysis = ''HKCategoryTypeIdentifierSleepAnalysis''"
| "rawValue bodyMass = ''HKQuantityTypeIdentifierBodyMass''"
| "rawValue vo2Max = ''HKQuantityTypeIdentifierVO2Max''"

text \<open>\<^verbatim>\<open>HealthDataType(rawValue:)\<close>\<close>

definition HealthDataType_init :: "string \<Rightarrow> HealthDataType option" where
  "HealthDataType_init s = find (\<lambda>t. rawValue t = s) allCases"

datatype HKSampleType = HKQuantityType string | HKWorkoutType | HKCategoryType string

fun hkSampleType :: "HealthDataType \<Rightarrow> HKSampleType option" where
  "hkSampleType stepCount = Some (HKQuantityType ''HKQuantityTypeIdentifierStepCount'')"
| "hkSampleType heartRate = Some (HKQuantityType ''HKQuantityTypeIdentifierHeartRate'')"
| "hkSampleType activeEnergyBurned = Some (HKQuantityType ''HKQuantityTypeIdentifierActiveEnergyBurned'')"
| "hkSampleType workout = Some HKWorkoutType"
| "hkSampleType sleepAnalysis = Some (HKCategoryType ''HKCategoryTypeIdentifierSleepAnalysis'')"
| "hkSampleType bodyMass = Some (HKQuantityType ''HKQuantityTypeIdentifierBodyMass'')"
| "hkSampleType vo2Max = Some (HKQuantityType ''HKQuantityTypeIdentifierVO2Max'')"

datatype HKUnit =
  unit_count | unit_count_per_minute | unit_kilocalorie | unit_pound | unit_mL_per_min_kg | unit_mile

text \<open>An \<^verbatim>\<open>HKQuantity\<close> is what \<^verbatim>\<open>doubleValue(for:)\<close> reads from it in each
  unit (HealthKit raises when the unit does not fit the quantity; the samples of a type
  always fit the unit the conversion asks for).\<close>

type_synonym HKQuantity = "HKUnit \<Rightarrow> Double"

datatype HKWorkoutActivityType =
  walking | running | cycling | swimming | traditionalStrengthTraining
  | functionalStrengthTraining | hiking | yoga | elliptical | rowing | coreTraining
  | highIntensityIntervalTraining | crossTraining | stairClimbing | stairs | climbing
  | jumpRope | paddleSports | underwaterDiving | crossCountrySkiing | downhillSkiing
  | snowboarding | skatingSports | tennis | golf | otherActivity nat

text \<open>What every sample carries: \<^verbatim>\<open>sourceRevision.source.name\<close>,
  \<^verbatim>\<open>.bundleIdentifier\<close>, the two dates and the metadata, whose values are
  already their descriptions \<^verbatim>\<open>"\($0)"\<close>.\<close>

record HKSampleBase =
  srcName :: string
  srcBundleIdentifier :: string
  startDate :: Date
  endDate :: Date
  hkMetadata :: "(string \<times> string) list option"

record HKStatistics =
  averageQuantity :: "HKQuantity option"
  minimumQuantity :: "HKQuantity option"
  maximumQuantity :: "HKQuantity option"

record HKWorkoutFields =
  workoutActivityType :: HKWorkoutActivityType
  duration :: Double
  hkTotalDistance :: "HKQuantity option"
  hkTotalEnergyBurned :: "HKQuantity option"
  heartRateStatistics :: "HKStatistics option"

datatype HKSample =
  HKQuantitySample HKSampleBase string HKQuantity
  | HKCategorySample HKSampleBase string int
  | HKWorkout HKSampleBase HKWorkoutFields

fun sampleBase :: "HKSample \<Rightarrow> HKSampleBase" where
  "sampleBase (HKQuantitySample b _ _) = b"
| "sampleBase (HKCategorySample b _ _) = b"
| "sampleBase (HKWorkout b _) = b"

record SyncConfig =
  serverURL :: string
  refreshURL :: string
  batchSize :: nat
  backfillDays :: nat
  cfgDeviceId :: string
  apiSecret :: string

text \<open>The values of \<^verbatim>\<open>struct SyncConfig\<close>. The device identifier and the secret are
  read from the device and from \<^verbatim>\<open>Secrets.plist\<close> (a missing secret aborts the
  process before any request is built).\<close>

definition SyncConfig_static :: "string \<Rightarrow> string \<Rightarrow> SyncConfig" where
  "SyncConfig_static dev secret =
     \<lparr> serverURL = ''https://fit.justslobo.com/api/sync'',
       refreshURL = ''https://fit.justslobo.com/api/sync/refresh'',
       batchSize = 1000,
       backfillDays = 30,
       cfgDeviceId = dev,
       apiSecret = secret \<rparr>"

fun quantity_unit :: "string \<Rightarrow> HKUnit \<times> string" where
  "quantity_unit ident =
     (if ident = ''HKQuantityTypeIdentifierStepCount'' then (unit_count, ''count'')
      else if ident = ''HKQuantityTypeIdentifierHeartRate'' then (unit_count_per_minute, ''count/min'')
      else if ident = ''HKQuantityTypeIdentifierActiveEnergyBurned'' then (unit_kilocalorie, ''kcal'')
      else if ident = ''HKQuantityTypeIdentifierBodyMass'' then (unit_pound, ''lb'')
      else if ident = ''HKQuantityTypeIdentifierVO2Max'' then (unit_mL_per_min_kg, ''mL/min'' @ [CHR 0xC2, CHR 0xB7] @ ''kg'')
      else (unit_count, ''count''))"

definition quantity_toPayload :: "HKSampleBase \<Rightarrow> string \<Rightarrow> HKQuantity \<Rightarrow> Date HealthRecordPayload" where
  "quantity_toPayload b ident q =
     \<lparr> recordType = ident,
       sourceName = srcName b,
       sourceBundle = Some (srcBundleIdentifier b),
       rvalue = Some (q (fst (quantity_unit ident))),
       valueText = None,
       unit = Some (snd (quantity_unit ident)),
       startTime = startDate b,
       endTime = endDate b,
       metadata = hkMetadata b \<rparr>"

fun sleepValueString :: "int \<Rightarrow> string" where
  "sleepValueString v =
     (if v = 0 then ''InBed'' else if v = 1 then ''AsleepUnspecified'' else if v = 2 then ''Awake''
      else if v = 3 then ''AsleepCore'' else if v = 4 then ''AsleepDeep''
      else if v = 5 then ''AsleepREM'' else ''Unknown'')"

definition category_toPayload ::
  "(int \<Rightarrow> string) \<Rightarrow> HKSampleBase \<Rightarrow> string \<Rightarrow> int \<Rightarrow> Date HealthRecordPayload" where
  "category_toPayload describeInt b ident v =
     \<lparr> recordType = ident,
       sourceName = srcName b,
       sourceBundle = Some (srcBundleIdentifier b),
       rvalue = Some (of_int v),
       valueText = Some (if ident = ''HKCategoryTypeIdentifierSleepAnalysis''
                         then sleepValueString v else describeInt v),
       unit = None,
       startTime = startDate b,
       endTime = endDate b,
       metadata = hkMetadata b \<rparr>"

text \<open>\<^verbatim>\<open>lowercased()\<close>, on the ASCII letters (other bytes are left as they are).\<close>

definition lowercased :: "string \<Rightarrow> string" where
  "lowercased s =
     map (\<lambda>c. if 65 \<le> (of_char c :: nat) \<and> (of_char c :: nat) \<le> 90
               then char_of ((of_char c :: nat) + 32) else c) s"

definition validTypes :: "HKWorkoutActivityType list" where
  "validTypes =
     [walking, running, cycling, swimming, traditionalStrengthTraining, functionalStrengthTraining,
      hiking, yoga, elliptical, rowing, coreTraining, highIntensityIntervalTraining,
      crossTraining, stairClimbing, stairs, climbing, jumpRope, paddleSports,
      underwaterDiving, crossCountrySkiing, downhillSkiing, snowboarding, skatingSports,
      tennis, golf]"

definition shouldSync :: "HKSampleBase \<Rightarrow> HKWorkoutFields \<Rightarrow> bool" where
  "shouldSync b w =
     (if \<not> list_ex (\<lambda>v. sublist v (lowercased (srcName b))) [''watch'', ''apple watch'']
      then False
      else workoutActivityType w \<in> set validTypes)"

fun activity_name :: "HKWorkoutActivityType \<Rightarrow> string" where
  "activity_name walking = ''HKWorkoutActivityTypeWalking''"
| "activity_name running = ''HKWorkoutActivityTypeRunning''"
| "activity_name cycling = ''HKWorkoutActivityTypeCycling''"
| "activity_name swimming = ''HKWorkoutActivityTypeSwimming''"
| "activity_name traditionalStrengthTraining = ''HKWorkoutActivityTypeTraditionalStrengthTraining''"
| "activity_name functionalStrengthTraining = ''HKWorkoutActivityTypeFunctionalStrengthTraining''"
| "activity_name hiking = ''HKWorkoutActivityTypeHiking''"
| "activity_name yoga = ''HKWorkoutActivityTypeYoga''"
| "activity_name elliptical = ''HKWorkoutActivityTypeElliptical''"
| "activity_name rowing = ''HKWorkoutActivityTypeRowing''"
| "activity_name _ = ''HKWorkoutActivityTypeOther''"

definition workout_stats :: "HKWorkoutFields \<Rightarrow> (string \<times> Double) list" where
  "workout_stats w =
     (case heartRateStatistics w of
        None \<Rightarrow> []
      | Some hr \<Rightarrow>
          (case averageQuantity hr of Some q \<Rightarrow> [(''heartRateAvg'', q unit_count_per_minute)] | None \<Rightarrow> [])
          @ (case minimumQuantity hr of Some q \<Rightarrow> [(''heartRateMin'', q unit_count_per_minute)] | None \<Rightarrow> [])
          @ (case maximumQuantity hr of Some q \<Rightarrow> [(''heartRateMax'', q unit_count_per_minute)] | None \<Rightarrow> []))"

definition workout_toPayload :: "HKSampleBase \<Rightarrow> HKWorkoutFields \<Rightarrow> Date WorkoutPayload" where
  "workout_toPayload b w =
     \<lparr> workoutType = activity_name (workoutActivityType w),
       wSourceName = srcName b,
       wSourceBundle = Some (srcBundleIdentifier b),
       wStartTime = startDate b,
       wEndTime = endDate b,
       durationSeconds = duration w,
       totalDistance = (case hkTotalDistance w of Some q \<Rightarrow> Some (q unit_mile) | None \<Rightarrow> None),
       totalEnergyBurned =
         (case hkTotalEnergyBurned w of Some q \<Rightarrow> Some (q unit_kilocalorie) | None \<Rightarrow> None),
       statistics = (if workout_stats w = [] then None else Some (workout_stats w)),
       wMetadata = hkMetadata b \<rparr>"

section \<open>The phone: state, outside world and the sync engine\<close>

subsection \<open>State\<close>

datatype UDValue = UDData Data | UDDouble Double

record TypeSyncStatus =
  stType :: HealthDataType
  stLastSyncTime :: "Date option"
  stLastSyncCount :: "int option"
  stLastError :: "string option"
  stPendingCount :: int
  stIsAuthorized :: bool

datatype HKQueryOptions = noOptions | strictStartDate | strictEndDate

datatype NSPredicate = predicateForSamples "Date option" "Date option" HKQueryOptions

text \<open>
  One record holds the objects the engine works on and the outside world it acts on:
  \<^item> \<open>defaults\<close> is \<^verbatim>\<open>UserDefaults.standard\<close>, which both \<^verbatim>\<open>AnchorStore\<close>
    instances write to;
  \<^item> \<open>syncManagerSet\<close> and \<open>typeStatuses\<close> are the \<^verbatim>\<open>HealthKitManager\<close>'s
    optional reference to the sync manager and its status dictionary;
  \<^item> \<open>isSyncing\<close> to \<open>isProcessingQueue\<close> are the fields of \<^verbatim>\<open>SyncManager\<close>;
  \<^item> \<open>clockReads\<close> counts the calls of \<^verbatim>\<open>Date()\<close>, \<open>anchoredQueries\<close> lists the
    queries executed on the health store, \<open>uploads\<close> the batches sent to the server, one
    per HTTP request, and \<open>refreshes\<close> counts the requests to the refresh endpoint.
\<close>

record app =
  defaults :: "string \<rightharpoonup> UDValue"
  syncManagerSet :: bool
  typeStatuses :: "HealthDataType \<rightharpoonup> TypeSyncStatus"
  isSyncing :: bool
  lastSyncTime :: "Date option"
  lastError :: "string option"
  pendingBatches :: nat
  uploadQueue :: "Date SyncBatch list"
  isProcessingQueue :: bool
  clockReads :: nat
  anchoredQueries :: "(HKSampleType \<times> HKQueryAnchor option \<times> NSPredicate option) list"
  uploads :: "Date SyncBatch list"
  refreshes :: nat

subsection \<open>What the engine takes from outside\<close>

text \<open>What \<^verbatim>\<open>HKAnchoredObjectQuery\<close> hands to its results handler.\<close>

record HKAnchoredResult =
  qSamples :: "HKSample list option"
  qDeletedObjects :: "string list option"
  qNewAnchor :: "HKQueryAnchor option"
  qError :: "string option"

text \<open>What \<^verbatim>\<open>URLSession.shared.data(for:)\<close> does with a request: it throws, or it
  returns a response that is no HTTP response, or an HTTP response with a status code and a
  body (\<open>None\<close> when the body is not UTF-8).\<close>

datatype URLResult = URLThrows string | URLNotHTTP | URLHTTP int "string option"

datatype SyncError = invalidURL | invalidResponse | serverError int string | encodingError

datatype thrown = ThrownSyncError SyncError | ThrownOther string

text \<open>
  The platform, as functions: the clock (the value of the \<open>k\<close>-th \<^verbatim>\<open>Date()\<close>), the
  calendar, the health store, the keyed archiver, \<^verbatim>\<open>URL(string:)\<close>, the JSON encoder
  (the description of the error it throws, if any), the network (the result of the \<open>k\<close>-th
  upload request) and the description of an integer.
\<close>

record platform =
  Date_now :: "nat \<Rightarrow> Date"
  calendar_date_byAdding_day :: "int \<Rightarrow> Date \<Rightarrow> Date option"
  HKAnchoredObjectQuery :: "HKSampleType \<Rightarrow> NSPredicate option \<Rightarrow> HKQueryAnchor option \<Rightarrow> HKAnchoredResult"
  archivedData :: "HKQueryAnchor \<Rightarrow> Data option"
  unarchivedObject :: "Data \<Rightarrow> HKQueryAnchor option"
  URL_string :: "string \<Rightarrow> bool"
  encode_error :: "Date SyncBatch \<Rightarrow> string option"
  URLSession_data :: "nat \<Rightarrow> Date SyncBatch \<Rightarrow> URLResult"
  describeInt :: "int \<Rightarrow> string"

definition Date_init :: "platform \<Rightarrow> app \<Rightarrow> Date \<times> app" where
  "Date_init env s = (Date_now env (clockReads s), s\<lparr>clockReads := clockReads s + 1\<rparr>)"

subsection \<open>\<^verbatim>\<open>AnchorStore\<close>\<close>

definition keyPrefix :: string where "keyPrefix = ''healthsync.anchor.''"

definition lastSyncKeyPrefix :: string where "lastSyncKeyPrefix = ''healthsync.lastsync.''"

definition getAnchor :: "platform \<Rightarrow> app \<Rightarrow> HealthDataType \<Rightarrow> HKQueryAnchor option" where
  "getAnchor env s ty =
     (case defaults s (keyPrefix @ rawValue ty) of
        Some (UDData d) \<Rightarrow> unarchivedObject env d
      | _ \<Rightarrow> None)"

definition setAnchor :: "platform \<Rightarrow> HKQueryAnchor option \<Rightarrow> HealthDataType \<Rightarrow> app \<Rightarrow> app" where
  "setAnchor env anchor ty s =
     (case anchor of
        Some a \<Rightarrow>
          (case archivedData env a of
             Some d \<Rightarrow> s\<lparr>defaults := (defaults s)(keyPrefix @ rawValue ty \<mapsto> UDData d)\<rparr>
           | None \<Rightarrow> s)
      | None \<Rightarrow> s\<lparr>defaults := (defaults s)(keyPrefix @ rawValue ty := None)\<rparr>)"

definition clearAnchor :: "HealthDataType \<Rightarrow> app \<Rightarrow> app" where
  "clearAnchor ty s = s\<lparr>defaults := (defaults s)(keyPrefix @ rawValue ty := None)\<rparr>"

definition getLastSyncTime :: "app \<Rightarrow> HealthDataType \<Rightarrow> Date option" where
  "getLastSyncTime s ty =
     (let timestamp = (case defaults s (lastSyncKeyPrefix @ rawValue ty) of
                         Some (UDDouble x) \<Rightarrow> x | _ \<Rightarrow> 0)
      in if timestamp > 0 then Some timestamp else None)"

definition setLastSyncTime :: "Date \<Rightarrow> HealthDataType \<Rightarrow> app \<Rightarrow> app" where
  "setLastSyncTime date ty s =
     s\<lparr>defaults := (defaults s)(lastSyncKeyPrefix @ rawValue ty \<mapsto> UDDouble date)\<rparr>"

subsection \<open>\<^verbatim>\<open>SyncManager\<close>\<close>

fun errorDescription :: "platform \<Rightarrow> SyncError \<Rightarrow> string" where
  "errorDescription env invalidURL = ''Invalid server URL''"
| "errorDescription env invalidResponse = ''Invalid server response''"
| "errorDescription env (serverError code message) =
     ''Server error ('' @ describeInt env code @ ''): '' @ message"
| "errorDescription env encodingError = ''Failed to encode data''"

fun localizedDescription :: "platform \<Rightarrow> thrown \<Rightarrow> string" where
  "localizedDescription env (ThrownSyncError e) = errorDescription env e"
| "localizedDescription env (ThrownOther d) = d"

text \<open>\<^verbatim>\<open>uploadBatch\<close>: \<open>None\<close> when it returns, the error when it throws. The request
  leaves the phone only after the URL and the body were built.\<close>

definition uploadBatch :: "platform \<Rightarrow> SyncConfig \<Rightarrow> Date SyncBatch \<Rightarrow> app \<Rightarrow> thrown option \<times> app" where
  "uploadBatch env cfg batch s =
     (if \<not> URL_string env (serverURL cfg) then (Some (ThrownSyncError invalidURL), s)
      else case encode_error env batch of
        Some d \<Rightarrow> (Some (ThrownOther d), s)
      | None \<Rightarrow>
          (let s1 = s\<lparr>uploads := uploads s @ [batch]\<rparr> in
           case URLSession_data env (length (uploads s)) batch of
             URLThrows d \<Rightarrow> (Some (ThrownOther d), s1)
           | URLNotHTTP \<Rightarrow> (Some (ThrownSyncError invalidResponse), s1)
           | URLHTTP statusCode body \<Rightarrow>
               if 200 \<le> statusCode \<and> statusCode \<le> 299 then (None, s1)
               else (Some (ThrownSyncError
                       (serverError statusCode
                          (case body of Some m \<Rightarrow> m | None \<Rightarrow> ''Unknown error''))), s1)))"

text \<open>\<^verbatim>\<open>refreshMaterializedView\<close>: the response and a thrown error are only printed.\<close>

definition refreshMaterializedView :: "platform \<Rightarrow> SyncConfig \<Rightarrow> app \<Rightarrow> app" where
  "refreshMaterializedView env cfg s =
     (if \<not> URL_string env (refreshURL cfg) then s else s\<lparr>refreshes := refreshes s + 1\<rparr>)"

text \<open>The body of the \<^verbatim>\<open>while\<close> loop of \<^verbatim>\<open>processQueue\<close>, after
  \<^verbatim>\<open>removeFirst()\<close> has taken \<open>batch\<close> from the queue.\<close>

definition processBatch :: "platform \<Rightarrow> SyncConfig \<Rightarrow> Date SyncBatch \<Rightarrow> app \<Rightarrow> app" where
  "processBatch env cfg batch s0 =
     (let s = s0\<lparr>pendingBatches := length (uploadQueue s0)\<rparr> in
      case uploadBatch env cfg batch s of
        (None, s1) \<Rightarrow>
          (let s2 = (case HealthDataType_init (dataType batch) of
                       Some ty \<Rightarrow> (let (now, s') = Date_init env s1 in setLastSyncTime now ty s')
                     | None \<Rightarrow> s1);
               (now, s3) = Date_init env s2
           in s3\<lparr>lastSyncTime := Some now, lastError := None\<rparr>)
      | (Some err, s1) \<Rightarrow> s1\<lparr>lastError := Some (localizedDescription env err)\<rparr>)"

function drainQueue :: "platform \<Rightarrow> SyncConfig \<Rightarrow> app \<Rightarrow> app" where
  "drainQueue env cfg s =
     (case uploadQueue s of
        [] \<Rightarrow> s
      | batch # rest \<Rightarrow> drainQueue env cfg (processBatch env cfg batch (s\<lparr>uploadQueue := rest\<rparr>)))"
  by pat_completeness auto
termination
  by (relation "measure (\<lambda>(env, cfg, s). length (uploadQueue s))")
     (auto simp: processBatch_def uploadBatch_def Date_init_def setLastSyncTime_def Let_def
           split: option.splits URLResult.splits prod.splits)

definition processQueue :: "platform \<Rightarrow> SyncConfig \<Rightarrow> app \<Rightarrow> app" where
  "processQueue env cfg s =
     (if isProcessingQueue s then s
      else let s1 = s\<lparr>isProcessingQueue := True, isSyncing := True\<rparr>;
               s2 = drainQueue env cfg s1;
               s3 = s2\<lparr>isProcessingQueue := False, isSyncing := False\<rparr>
           in refreshMaterializedView env cfg s3)"

definition queueBatch :: "platform \<Rightarrow> SyncConfig \<Rightarrow> Date SyncBatch \<Rightarrow> app \<Rightarrow> app" where
  "queueBatch env cfg batch s =
     (let s1 = s\<lparr>uploadQueue := uploadQueue s @ [batch]\<rparr>;
          s2 = s1\<lparr>pendingBatches := length (uploadQueue s1)\<rparr>
      in if \<not> isProcessingQueue s2 then processQueue env cfg s2 else s2)"

subsection \<open>\<^verbatim>\<open>HealthKitManager\<close>\<close>

definition performAnchoredQuery ::
  "platform \<Rightarrow> HKSampleType \<Rightarrow> HKQueryAnchor option \<Rightarrow> NSPredicate option \<Rightarrow> app
     \<Rightarrow> (string + HKSample list \<times> string list \<times> HKQueryAnchor option) \<times> app" where
  "performAnchoredQuery env sampleType anchor predicate s =
     (let r = HKAnchoredObjectQuery env sampleType predicate anchor;
          s1 = s\<lparr>anchoredQueries := anchoredQueries s @ [(sampleType, anchor, predicate)]\<rparr>
      in case qError r of
           Some e \<Rightarrow> (Inl e, s1)
         | None \<Rightarrow> (Inr (the_list (qSamples r), the_list (qDeletedObjects r), qNewAnchor r), s1))"

text \<open>The three \<^verbatim>\<open>compactMap\<close> closures of \<^verbatim>\<open>syncData\<close>.\<close>

fun quantityPayload :: "HKSample \<Rightarrow> Date HealthRecordPayload option" where
  "quantityPayload (HKQuantitySample b ident q) = Some (quantity_toPayload b ident q)"
| "quantityPayload _ = None"

fun categoryPayload :: "platform \<Rightarrow> HKSample \<Rightarrow> Date HealthRecordPayload option" where
  "categoryPayload env (HKCategorySample b ident v) = Some (category_toPayload (describeInt env) b ident v)"
| "categoryPayload env _ = None"

fun workoutPayload :: "HKSample \<Rightarrow> Date WorkoutPayload option" where
  "workoutPayload (HKWorkout b w) = (if shouldSync b w then Some (workout_toPayload b w) else None)"
| "workoutPayload _ = None"

fun allRecords :: "platform \<Rightarrow> HealthDataType \<Rightarrow> HKSample list \<Rightarrow> Date HealthRecordPayload list" where
  "allRecords env workout samples = []"
| "allRecords env sleepAnalysis samples = List.map_filter (categoryPayload env) samples"
| "allRecords env _ samples = List.map_filter quantityPayload samples"

fun allWorkouts :: "HealthDataType \<Rightarrow> HKSample list \<Rightarrow> Date WorkoutPayload list" where
  "allWorkouts workout samples = List.map_filter workoutPayload samples"
| "allWorkouts _ samples = []"

text \<open>\<^verbatim>\<open>stride(from: i, to: n, by: b)\<close>. Swift traps on a zero stride: \<open>None\<close>.\<close>

function strideFrom :: "nat \<Rightarrow> nat \<Rightarrow> nat \<Rightarrow> nat list" where
  "strideFrom i n b = (if b = 0 \<or> n \<le> i then [] else i # strideFrom (i + b) n b)"
  by pat_completeness auto
termination
  by (relation "measure (\<lambda>(i, n, b). n - i)") auto

declare strideFrom.simps [simp del]

definition stride_from_to_by :: "nat \<Rightarrow> nat \<Rightarrow> nat \<Rightarrow> nat list option" where
  "stride_from_to_by i n b = (if b = 0 then None else Some (strideFrom i n b))"

text \<open>The bodies of the two \<^verbatim>\<open>for i in stride(...)\<close> loops;
  \<^verbatim>\<open>Array(xs[i..<end])\<close> is \<open>take (end - i) (drop i xs)\<close>.\<close>

definition queueRecordsChunk ::
  "platform \<Rightarrow> SyncConfig \<Rightarrow> HealthDataType \<Rightarrow> Date HealthRecordPayload list \<Rightarrow> string list
     \<Rightarrow> app \<Rightarrow> nat \<Rightarrow> app" where
  "queueRecordsChunk env cfg ty rs deleted s i =
     (let e = min (i + batchSize cfg) (length rs);
          chunk = take (e - i) (drop i rs);
          (now, s1) = Date_init env s;
          batch = \<lparr> dataType = rawValue ty, records = Some chunk, workouts = None,
                    deletedUUIDs = (if i = 0 then deleted else []),
                    deviceId = cfgDeviceId cfg, timestamp = now \<rparr>
      in queueBatch env cfg batch s1)"

definition queueWorkoutsChunk ::
  "platform \<Rightarrow> SyncConfig \<Rightarrow> HealthDataType \<Rightarrow> Date WorkoutPayload list \<Rightarrow> string list
     \<Rightarrow> app \<Rightarrow> nat \<Rightarrow> app" where
  "queueWorkoutsChunk env cfg ty ws deleted s i =
     (let e = min (i + batchSize cfg) (length ws);
          chunk = take (e - i) (drop i ws);
          (now, s1) = Date_init env s;
          batch = \<lparr> dataType = rawValue ty, records = None, workouts = Some chunk,
                    deletedUUIDs = (if i = 0 then deleted else []),
                    deviceId = cfgDeviceId cfg, timestamp = now \<rparr>
      in queueBatch env cfg batch s1)"

text \<open>\<^verbatim>\<open>syncData\<close>; \<open>None\<close> is the trap of a zero stride.\<close>

definition syncData ::
  "platform \<Rightarrow> SyncConfig \<Rightarrow> HealthDataType \<Rightarrow> HKSample list \<Rightarrow> string list \<Rightarrow> app \<Rightarrow> app option" where
  "syncData env cfg ty samples deleted s =
     (if \<not> syncManagerSet s then Some s
      else let rs = allRecords env ty samples; ws = allWorkouts ty samples in
        if rs \<noteq> [] then
          (case stride_from_to_by 0 (length rs) (batchSize cfg) of
             None \<Rightarrow> None
           | Some idx \<Rightarrow> Some (foldl (queueRecordsChunk env cfg ty rs deleted) s idx))
        else if ws \<noteq> [] then
          (case stride_from_to_by 0 (length ws) (batchSize cfg) of
             None \<Rightarrow> None
           | Some idx \<Rightarrow> Some (foldl (queueWorkoutsChunk env cfg ty ws deleted) s idx))
        else if deleted \<noteq> [] then
          (let (now, s1) = Date_init env s;
               batch = \<lparr> dataType = rawValue ty, records = None, workouts = None,
                         deletedUUIDs = deleted, deviceId = cfgDeviceId cfg, timestamp = now \<rparr>
           in Some (queueBatch env cfg batch s1))
        else Some s)"

text \<open>\<^verbatim>\<open>typeStatuses[type]?.lastError = e\<close>\<close>

definition setStatusError :: "HealthDataType \<Rightarrow> string option \<Rightarrow> app \<Rightarrow> app" where
  "setStatusError ty e s =
     (case typeStatuses s ty of
        None \<Rightarrow> s
      | Some st \<Rightarrow> s\<lparr>typeStatuses := (typeStatuses s)(ty \<mapsto> st\<lparr>stLastError := e\<rparr>)\<rparr>)"

text \<open>The predicate of \<^verbatim>\<open>fetchAndSync\<close>: with no anchor, samples that start at or
  after the date the calendar gives for \<open>backfillDays\<close> days before now; with an anchor,
  none.\<close>

definition fetchPredicate ::
  "platform \<Rightarrow> SyncConfig \<Rightarrow> HKQueryAnchor option \<Rightarrow> app \<Rightarrow> NSPredicate option \<times> app" where
  "fetchPredicate env cfg anchor s =
     (case anchor of
        None \<Rightarrow>
          (let (now, s1) = Date_init env s
           in (Some (predicateForSamples
                       (calendar_date_byAdding_day env (- int (backfillDays cfg)) now)
                       None strictStartDate), s1))
      | Some _ \<Rightarrow> (None, s))"

definition fetchAndSync :: "platform \<Rightarrow> SyncConfig \<Rightarrow> HealthDataType \<Rightarrow> app \<Rightarrow> app option" where
  "fetchAndSync env cfg ty s =
     (case hkSampleType ty of
        None \<Rightarrow> Some s
      | Some sampleType \<Rightarrow>
          (let anchor = getAnchor env s ty;
               (predicate, s1) = fetchPredicate env cfg anchor s
           in case performAnchoredQuery env sampleType anchor predicate s1 of
                (Inl err, s2) \<Rightarrow> Some (setStatusError ty (Some err) s2)
              | (Inr (samples, deletedObjects, newAnchor), s2) \<Rightarrow>
                  (case (if samples \<noteq> [] \<or> deletedObjects \<noteq> []
                         then syncData env cfg ty samples deletedObjects s2 else Some s2) of
                     None \<Rightarrow> None
                   | Some s3 \<Rightarrow>
                       (let s4 = (case newAnchor of
                                    Some a \<Rightarrow> setAnchor env (Some a) ty s3
                                  | None \<Rightarrow> s3)
                        in Some (setStatusError ty None s4)))))"

section \<open>Example values\<close>

text \<open>A server environment, payloads and requests on which the theorems below are run. The
  hash of the example environment is the hashed key itself, its checks reject an empty
  start time.\<close>

definition ex_env :: server_env where
  "ex_env =
     \<lparr> SYNC_API_SECRET = Some ''s3cret'',
       sha256_hex = (\<lambda>key. key),
       Number_toString = (\<lambda>x. if x = 72 then ''72'' else if x = 1800 then ''1800'' else ''0''),
       JSON_stringify = (\<lambda>m. concat (map (\<lambda>(k, v). k @ '':'' @ v @ '';'') m)),
       pool_connect_error = None,
       health_raw_rejects =
         (\<lambda>row. if start_time row = [] then Some ''invalid input syntax for type timestamp'' else None),
       workouts_rejects =
         (\<lambda>row. if w_start_time row = [] then Some ''invalid input syntax for type timestamp'' else None) \<rparr>"

definition ex_record :: "string HealthRecordPayload" where
  "ex_record =
     \<lparr> recordType = ''HeartRate'', sourceName = ''Watch'', sourceBundle = None,
       rvalue = Some 72, valueText = None, unit = Some ''count/min'',
       startTime = ''T10'', endTime = ''T11'', metadata = None \<rparr>"

definition ex_sleep :: "string HealthRecordPayload" where
  "ex_sleep =
     \<lparr> recordType = ''Sleep'', sourceName = ''Watch'', sourceBundle = None,
       rvalue = None, valueText = Some ''AsleepCore'', unit = None,
       startTime = ''T01'', endTime = ''T05'', metadata = Some [(''tz'', ''UTC'')] \<rparr>"

definition ex_walk :: "string WorkoutPayload" where
  "ex_walk =
     \<lparr> workoutType = ''Walking'', wSourceName = ''Watch'', wSourceBundle = None,
       wStartTime = ''T12'', wEndTime = ''T13'', durationSeconds = 1800,
       totalDistance = Some 0, totalEnergyBurned = Some 72,
       statistics = Some [(''heartRateAvg'', 72)], wMetadata = None \<rparr>"

definition ex_batch :: "string SyncBatch" where
  "ex_batch =
     \<lparr> dataType = ''HeartRate'', records = Some [ex_record, ex_sleep], workouts = Some [ex_walk],
       deletedUUIDs = [''u1''], deviceId = ''phone'', timestamp = ''T14'' \<rparr>"

definition ex_request :: request where
  "ex_request = \<lparr> authorization = Some ''Bearer s3cret'', json = Inr ex_batch \<rparr>"

definition empty_db :: db where
  "empty_db = \<lparr> health_raw = [], workouts_tbl = [] \<rparr>"

definition ex_record_other_unit :: "string HealthRecordPayload" where
  "ex_record_other_unit =
     ex_record\<lparr> unit := Some ''bpm'', sourceBundle := Some ''com.apple.health'',
                 metadata := Some [(''HKMetadataKeyHeartRateMotionContext'', ''1'')] \<rparr>"

definition ex_walk_other :: "string WorkoutPayload" where
  "ex_walk_other =
     ex_walk\<lparr> totalDistance := Some 72, totalEnergyBurned := None, statistics := None,
               wMetadata := Some [(''indoor'', ''1'')] \<rparr>"

definition ex_bad_record :: "string HealthRecordPayload" where
  "ex_bad_record = ex_sleep\<lparr> startTime := [] \<rparr>"

definition ex_bad_batch :: "string SyncBatch" where
  "ex_bad_batch = ex_batch\<lparr> records := Some [ex_record, ex_bad_record, ex_sleep] \<rparr>"

definition ex_run :: "string WorkoutPayload" where
  "ex_run =
     \<lparr> workoutType = ''Running'', wSourceName = ''Watch'', wSourceBundle = None,
       wStartTime = ''T15'', wEndTime = ''T16'', durationSeconds = 1800,
       totalDistance = Some 72, totalEnergyBurned = None,
       statistics = None, wMetadata = None \<rparr>"

text \<open>On the phone.\<close>

definition ex_cfg :: SyncConfig where
  "ex_cfg = SyncConfig_static ''phone'' ''s3cret''"

definition ex_old_sample :: HKSample where
  "ex_old_sample =
     HKQuantitySample
       \<lparr> srcName = ''Apple Watch'', srcBundleIdentifier = ''com.apple.health'',
         startDate = 0, endDate = 5, hkMetadata = None \<rparr>
       ''HKQuantityTypeIdentifierHeartRate'' (\<lambda>u. 61)"

definition ex_new_sample :: HKSample where
  "ex_new_sample =
     HKQuantitySample
       \<lparr> srcName = ''Apple Watch'', srcBundleIdentifier = ''com.apple.health'',
         startDate = 2999000, endDate = 2999005, hkMetadata = None \<rparr>
       ''HKQuantityTypeIdentifierHeartRate'' (\<lambda>u. 72)"

fun predicate_holds :: "NSPredicate option \<Rightarrow> HKSample \<Rightarrow> bool" where
  "predicate_holds None x = True"
| "predicate_holds (Some (predicateForSamples None e opts)) x = True"
| "predicate_holds (Some (predicateForSamples (Some t) e opts)) x = (t \<le> startDate (sampleBase x))"

text \<open>A phone that is offline: the health store holds one sample from long ago and one
  recent sample and gives anchor 7 to a first query; every upload throws.\<close>

definition ex_offline :: platform where
  "ex_offline =
     \<lparr> Date_now = (\<lambda>k. 3000000 + of_nat k),
       calendar_date_byAdding_day = (\<lambda>d t. Some (t + of_int d * 86400)),
       HKAnchoredObjectQuery =
         (\<lambda>st p a. \<lparr> qSamples = Some (case a of
                                     None \<Rightarrow> filter (predicate_holds p) [ex_old_sample, ex_new_sample]
                                   | Some _ \<Rightarrow> []),
                     qDeletedObjects = Some [], qNewAnchor = Some 7, qError = None \<rparr>),
       archivedData = (\<lambda>a. Some a),
       unarchivedObject = (\<lambda>d. Some d),
       URL_string = (\<lambda>u. u \<noteq> []),
       encode_error = (\<lambda>b. None),
       URLSession_data = (\<lambda>k b. URLThrows ''The Internet connection appears to be offline.''),
       describeInt = (\<lambda>i. ''500'') \<rparr>"

text \<open>The same phone with a server that accepts every upload.\<close>

definition ex_online :: platform where
  "ex_online = ex_offline\<lparr> URLSession_data := (\<lambda>k b. URLHTTP 200 (Some ''ok'')) \<rparr>"

text \<open>The app after launch: nothing stored, nothing queued, the sync manager set.\<close>

definition ex_app :: app where
  "ex_app =
     \<lparr> defaults = Map.empty, syncManagerSet = True, typeStatuses = Map.empty,
       isSyncing = False, lastSyncTime = None, lastError = None, pendingBatches = 0,
       uploadQueue = [], isProcessingQueue = False, clockReads = 0, anchoredQueries = [],
       uploads = [], refreshes = 0 \<rparr>"

definition ex_deletion_batch :: "Date SyncBatch" where
  "ex_deletion_batch =
     \<lparr> dataType = ''HKQuantityTypeIdentifierHeartRate'', records = None, workouts = None,
       deletedUUIDs = [''A1''], deviceId = ''phone'', timestamp = 3000000 \<rparr>"

definition ex_steps_batch :: "Date SyncBatch" where
  "ex_steps_batch =
     \<lparr> dataType = ''HKQuantityTypeIdentifierStepCount'', records = Some [], workouts = None,
       deletedUUIDs = [], deviceId = ''phone'', timestamp = 3000001 \<rparr>"

definition ex_queued :: app where
  "ex_queued = ex_app\<lparr> uploadQueue := [ex_deletion_batch, ex_steps_batch], pendingBatches := 2 \<rparr>"

definition ex_new_payload :: "Date HealthRecordPayload" where
  "ex_new_payload =
     \<lparr> recordType = ''HKQuantityTypeIdentifierHeartRate'', sourceName = ''Apple Watch'',
       sourceBundle = Some ''com.apple.health'', rvalue = Some 72, valueText = None,
       unit = Some ''count/min'', startTime = 2999000, endTime = 2999005, metadata = None \<rparr>"

text \<open>The state in which \<^verbatim>\<open>fetchAndSync\<close> for the heart rate leaves the offline phone.\<close>

definition ex_after_failed_upload :: app where
  "ex_after_failed_upload =
     \<lparr> defaults = [''healthsync.anchor.HKQuantityTypeIdentifierHeartRate'' \<mapsto> UDData 7],
       syncManagerSet = True, typeStatuses = Map.empty,
       isSyncing = False, lastSyncTime = None,
       lastError = Some ''The Internet connection appears to be offline.'',
       pendingBatches = 0, uploadQueue = [], isProcessingQueue = False, clockReads = 2,
       anchoredQueries =
         [(HKQuantityType ''HKQuantityTypeIdentifierHeartRate'', None,
           Some (predicateForSamples (Some 408000) None strictStartDate))],
       uploads =
         [\<lparr> dataType = ''HKQuantityTypeIdentifierHeartRate'', records = Some [ex_new_payload],
            workouts = None, deletedUUIDs = [], deviceId = ''phone'', timestamp = 3000001 \<rparr>],
       refreshes = 1 \<rparr>"

definition ex_many_samples :: "HKSample list" where
  "ex_many_samples = replicate 2500 ex_new_sample"

section \<open>Notions used to state the properties\<close>

text \<open>The connection a run of the inserts ends with, and the hashes a connection sees.\<close>

definition client_of :: "(string \<times> pg_client) + (pg_client \<times> counters) \<Rightarrow> pg_client" where
  "client_of r = (case r of Inl (e, c) \<Rightarrow> c | Inr (c, k) \<Rightarrow> c)"

definition hr_hashes :: "pg_client \<Rightarrow> string set" where
  "hr_hashes c = set (map record_hash (health_raw (visible c)))"

definition wo_hashes :: "pg_client \<Rightarrow> string set" where
  "wo_hashes c = set (map workout_hash (workouts_tbl (visible c)))"

text \<open>Some record or workout of the batch makes its \<^verbatim>\<open>INSERT\<close> raise.\<close>

definition element_raises :: "server_env \<Rightarrow> string SyncBatch \<Rightarrow> bool" where
  "element_raises env batch =
     (list_ex (\<lambda>r. health_raw_rejects env (record_row env r (generateRecordHash env r)) \<noteq> None)
        (the_list (records batch)) \<or>
      list_ex (\<lambda>w. workouts_rejects env (workout_row env w (generateWorkoutHash env w)) \<noteq> None)
        (the_list (workouts batch)))"

text \<open>On the phone: a batch whose request can be built (the URL parses, the encoder does not
  throw), a platform on which every batch can, the key of a type's anchor in the defaults,
  and a sync manager at rest (nothing queued, no run of the queue in progress).\<close>

definition sendable :: "platform \<Rightarrow> SyncConfig \<Rightarrow> Date SyncBatch \<Rightarrow> bool" where
  "sendable env cfg b = (URL_string env (serverURL cfg) \<and> encode_error env b = None)"

definition anchorKey :: "HealthDataType \<Rightarrow> string" where
  "anchorKey ty = keyPrefix @ rawValue ty"

definition idle :: "app \<Rightarrow> bool" where
  "idle s = (\<not> isProcessingQueue s \<and> uploadQueue s = [])"

definition allSendable :: "platform \<Rightarrow> SyncConfig \<Rightarrow> bool" where
  "allSendable env cfg = (URL_string env (serverURL cfg) \<and> (\<forall>b. encode_error env b = None))"

text \<open>A loop whose every round reads the clock once and queues one batch.\<close>

definition queues_one ::
  "platform \<Rightarrow> SyncConfig \<Rightarrow> (app \<Rightarrow> nat \<Rightarrow> app) \<Rightarrow> (nat \<Rightarrow> Date SyncBatch \<Rightarrow> bool) \<Rightarrow> bool" where
  "queues_one env cfg f R =
     (\<forall>s i. \<exists>b. f s i = queueBatch env cfg b (s\<lparr>clockReads := Suc (clockReads s)\<rparr>) \<and> R i b)"

text \<open>The slice \<^verbatim>\<open>xs[i..<min(i + batchSize, xs.count)]\<close>.\<close>

definition records_chunk ::
  "SyncConfig \<Rightarrow> 'a list \<Rightarrow> nat \<Rightarrow> 'a list" where
  "records_chunk cfg xs i = take (min (i + batchSize cfg) (length xs) - i) (drop i xs)"

text \<open>The result of the anchored query that \<^verbatim>\<open>fetchAndSync\<close> executes from state \<open>s\<close>, and
  the state right after that query.\<close>

definition anchoredResult ::
  "platform \<Rightarrow> SyncConfig \<Rightarrow> HealthDataType \<Rightarrow> app \<Rightarrow> HKSampleType \<Rightarrow> HKAnchoredResult" where
  "anchoredResult env cfg ty s st =
     HKAnchoredObjectQuery env st (fst (fetchPredicate env cfg (getAnchor env s ty) s))
       (getAnchor env s ty)"

definition queried :: "platform \<Rightarrow> SyncConfig \<Rightarrow> HealthDataType \<Rightarrow> app \<Rightarrow> HKSampleType \<Rightarrow> app" where
  "queried env cfg ty s st =
     (snd (fetchPredicate env cfg (getAnchor env s ty) s))
       \<lparr>anchoredQueries := anchoredQueries s @
          [(st, getAnchor env s ty, fst (fetchPredicate env cfg (getAnchor env s ty) s))]\<rparr>"

text \<open>The health store honours a start date given with \<^verbatim>\<open>.strictStartDate\<close>: every
  sample it returns starts at or after it.\<close>

definition honours_start :: "platform \<Rightarrow> bool" where
  "honours_start env =
     (\<forall>st t0 e a. \<forall>x \<in> set (the_list (qSamples
         (HKAnchoredObjectQuery env st (Some (predicateForSamples (Some t0) e strictStartDate)) a))).
        t0 \<le> startDate (sampleBase x))"

section \<open>Properties of the content hashes\<close>

lemmas server_eval =
  POST_def run_inserts_def unauthorized_def API_SECRET_def insert_health_raw_def insert_workouts_def
  query_BEGIN_def query_COMMIT_def query_ROLLBACK_def visible_def write_back_def
  record_row_def workout_row_def generateRecordHash_def generateWorkoutHash_def
  value_or_valueText_def truthy_def stat_def the_list_def element_raises_def Let_def
  ex_env_def ex_record_def ex_sleep_def ex_walk_def ex_batch_def ex_request_def empty_db_def
  ex_record_other_unit_def ex_walk_other_def ex_bad_record_def ex_bad_batch_def ex_run_def

lemmas client_eval =
  ex_cfg_def SyncConfig_static_def ex_offline_def ex_online_def ex_app_def ex_queued_def
  ex_deletion_batch_def ex_steps_batch_def ex_old_sample_def ex_new_sample_def

text \<open>
  C5. Two record payloads that agree on record type, source name, start time, end time and
  on what \<^verbatim>\<open>value ?? valueText\<close> yields have the same content hash, whatever their
  unit, source bundle and metadata are; two workout payloads that agree on workout type,
  source name, start time, end time and duration have the same content hash.
\<close>

theorem hash_determinism:
  "(recordType r1 = recordType r2 \<and> sourceName r1 = sourceName r2 \<and>
    startTime r1 = startTime r2 \<and> endTime r1 = endTime r2 \<and>
    (case rvalue r1 of Some v \<Rightarrow> Inl v | None \<Rightarrow> Inr (valueText r1)) =
    (case rvalue r2 of Some v \<Rightarrow> Inl v | None \<Rightarrow> Inr (valueText r2))
    \<longrightarrow> generateRecordHash env r1 = generateRecordHash env r2) \<and>
   (workoutType w1 = workoutType w2 \<and> wSourceName w1 = wSourceName w2 \<and>
    wStartTime w1 = wStartTime w2 \<and> wEndTime w1 = wEndTime w2 \<and>
    durationSeconds w1 = durationSeconds w2
    \<longrightarrow> generateWorkoutHash env w1 = generateWorkoutHash env w2)"
  by (auto simp: generateRecordHash_def generateWorkoutHash_def value_or_valueText_def
           split: option.splits)

theorem hash_determinism_witness:
  "generateRecordHash ex_env ex_record = generateRecordHash ex_env ex_record_other_unit \<and>
   ex_record \<noteq> ex_record_other_unit \<and>
   generateWorkoutHash ex_env ex_walk = generateWorkoutHash ex_env ex_walk_other \<and>
   ex_walk \<noteq> ex_walk_other"
  using hash_determinism[of ex_record ex_record_other_unit ex_env ex_walk ex_walk_other]
  by (simp add: ex_record_other_unit_def ex_walk_other_def ex_record_def ex_walk_def)

section \<open>Properties of the ingestion endpoint\<close>

lemma insert_health_raw_tx:
  "tx c = Some w \<Longrightarrow> insert_health_raw env row c = Inr (n, c') \<Longrightarrow>
     store c' = store c \<and> (\<exists>w'. tx c' = Some w')"
  by (auto simp: insert_health_raw_def write_back_def visible_def Let_def
           split: option.splits if_splits)

lemma insert_workouts_tx:
  "tx c = Some w \<Longrightarrow> insert_workouts env row c = Inr (n, c') \<Longrightarrow>
     store c' = store c \<and> (\<exists>w'. tx c' = Some w')"
  by (auto simp: insert_workouts_def write_back_def visible_def Let_def
           split: option.splits if_splits)

lemma insert_records_store:
  "tx c = Some w \<Longrightarrow>
     store (client_of (insert_records env rs (c, k))) = store c \<and>
     tx (client_of (insert_records env rs (c, k))) \<noteq> None"
proof (induction rs arbitrary: c k w)
  case Nil
  then show ?case by (simp add: client_of_def)
next
  case (Cons r rs)
  show ?case
  proof (cases "insert_health_raw env (record_row env r (generateRecordHash env r)) c")
    case (Inl e)
    with Cons.prems show ?thesis by (simp add: client_of_def)
  next
    case (Inr p)
    obtain n c1 where p: "p = (n, c1)" by (cases p)
    from insert_health_raw_tx[OF Cons.prems Inr[unfolded p]]
    obtain w1 where c1: "store c1 = store c" "tx c1 = Some w1" by blast
    from Cons.IH[OF c1(2)] c1(1) Inr p show ?thesis
      by simp
  qed
qed

lemma insert_workout_list_store:
  "tx c = Some w \<Longrightarrow>
     store (client_of (insert_workout_list env ws (c, k))) = store c \<and>
     tx (client_of (insert_workout_list env ws (c, k))) \<noteq> None"
proof (induction ws arbitrary: c k w)
  case Nil
  then show ?case by (simp add: client_of_def)
next
  case (Cons x ws)
  show ?case
  proof (cases "insert_workouts env (workout_row env x (generateWorkoutHash env x)) c")
    case (Inl e)
    with Cons.prems show ?thesis by (simp add: client_of_def)
  next
    case (Inr p)
    obtain n c1 where p: "p = (n, c1)" by (cases p)
    from insert_workouts_tx[OF Cons.prems Inr[unfolded p]]
    obtain w1 where c1: "store c1 = store c" "tx c1 = Some w1" by blast
    from Cons.IH[OF c1(2)] c1(1) Inr p show ?thesis
      by simp
  qed
qed

lemma run_inserts_store:
  "store (client_of (run_inserts env batch \<lparr>store = d, tx = None\<rparr>)) = d \<and>
   tx (client_of (run_inserts env batch \<lparr>store = d, tx = None\<rparr>)) \<noteq> None"
proof -
  let ?c1 = "query_BEGIN \<lparr>store = d, tx = None\<rparr>"
  let ?k0 = "\<lparr>insertedRecords = 0, insertedWorkouts = 0, skippedDuplicates = 0\<rparr>"
  have c1: "tx ?c1 = Some d" "store ?c1 = d" by (simp_all add: query_BEGIN_def)
  define ar where "ar = (case records batch of
               Some rs \<Rightarrow> if length rs > 0 then insert_records env rs (?c1, ?k0) else Inr (?c1, ?k0)
             | None \<Rightarrow> Inr (?c1, ?k0))"
  have ar: "store (client_of ar) = d \<and> tx (client_of ar) \<noteq> None"
    using insert_records_store[OF c1(1), of env _ ?k0] c1
    by (auto simp: ar_def client_of_def split: option.splits)
  show ?thesis
  proof (cases ar)
    case (Inl p)
    then show ?thesis using ar
      by (simp add: run_inserts_def Let_def ar_def[symmetric])
  next
    case (Inr p)
    obtain c2 k2 where p: "p = (c2, k2)" by (cases p)
    from ar Inr p obtain w2 where c2: "store c2 = d" "tx c2 = Some w2"
      by (auto simp: client_of_def)
    show ?thesis
      using insert_workout_list_store[OF c2(2), of env _ k2] c2 Inr p
      by (auto simp: run_inserts_def Let_def ar_def[symmetric] client_of_def split: option.splits)
  qed
qed

lemma run_inserts_Inl:
  "run_inserts env batch \<lparr>store = d, tx = None\<rparr> = Inl (e, c) \<Longrightarrow> store c = d"
  using run_inserts_store[of env batch d] by (simp add: client_of_def)

lemma run_inserts_Inr:
  "run_inserts env batch \<lparr>store = d, tx = None\<rparr> = Inr (c, k) \<Longrightarrow> store c = d \<and> tx c \<noteq> None"
  using run_inserts_store[of env batch d] by (simp add: client_of_def)

lemma POST_failed_keeps_db:
  "POST env req d = (SyncFailed_500 e, d') \<Longrightarrow> d' = d"
  by (auto simp: POST_def query_ROLLBACK_def dest: run_inserts_Inl
           split: if_splits sum.splits option.splits prod.splits)


lemma insert_health_raw_step:
  assumes "tx c = Some w" "insert_health_raw env row c = Inr (n, c')"
  shows "health_raw_rejects env row = None"
    and "\<exists>w'. tx c' = Some w'"
    and "workouts_tbl (visible c') = workouts_tbl (visible c)"
    and "\<exists>new. health_raw (visible c') = health_raw (visible c) @ new \<and> set new \<subseteq> {row}"
    and "record_hash row \<in> hr_hashes c'"
  using assms
  by (auto simp: insert_health_raw_def write_back_def visible_def Let_def hr_hashes_def
           split: option.splits if_splits)

lemma insert_workouts_step:
  assumes "tx c = Some w" "insert_workouts env row c = Inr (n, c')"
  shows "workouts_rejects env row = None"
    and "\<exists>w'. tx c' = Some w'"
    and "health_raw (visible c') = health_raw (visible c)"
    and "\<exists>new. workouts_tbl (visible c') = workouts_tbl (visible c) @ new \<and> set new \<subseteq> {row}"
    and "workout_hash row \<in> wo_hashes c'"
  using assms
  by (auto simp: insert_workouts_def write_back_def visible_def Let_def wo_hashes_def
           split: option.splits if_splits)

lemma insert_records_ok:
  assumes "tx c = Some w" "insert_records env rs (c, k) = Inr (c', k')"
  shows "(\<forall>r\<in>set rs. health_raw_rejects env (record_row env r (generateRecordHash env r)) = None) \<and>
         (\<exists>w'. tx c' = Some w') \<and>
         workouts_tbl (visible c') = workouts_tbl (visible c) \<and>
         (\<exists>new. health_raw (visible c') = health_raw (visible c) @ new \<and>
            set new \<subseteq> (\<lambda>r. record_row env r (generateRecordHash env r)) ` set rs) \<and>
         (\<forall>r\<in>set rs. generateRecordHash env r \<in> hr_hashes c')"
  using assms
proof (induction rs arbitrary: c k w)
  case Nil
  then show ?case by simp
next
  case (Cons r rs)
  let ?row = "record_row env r (generateRecordHash env r)"
  from Cons.prems(2) obtain n c1 where
    step: "insert_health_raw env ?row c = Inr (n, c1)"
    by (auto split: sum.splits)
  with Cons.prems(2) obtain k1 where rest: "insert_records env rs (c1, k1) = Inr (c', k')"
    by (auto split: if_splits)
  note s = insert_health_raw_step[OF Cons.prems(1) step]
  from s(2) obtain w1 where w1: "tx c1 = Some w1" by blast
  note ih = Cons.IH[OF w1 rest]
  from s(4) obtain new1 where new1: "health_raw (visible c1) = health_raw (visible c) @ new1"
    "set new1 \<subseteq> {?row}" by blast
  from ih obtain new2 where new2: "health_raw (visible c') = health_raw (visible c1) @ new2"
    "set new2 \<subseteq> (\<lambda>r. record_row env r (generateRecordHash env r)) ` set rs" by blast
  have mono: "hr_hashes c1 \<subseteq> hr_hashes c'"
    using new2(1) by (auto simp: hr_hashes_def)
  have "health_raw (visible c') = health_raw (visible c) @ (new1 @ new2)"
    using new1 new2 by simp
  moreover have "set (new1 @ new2) \<subseteq> (\<lambda>r. record_row env r (generateRecordHash env r)) ` set (r # rs)"
    using new1(2) new2(2) by auto
  moreover have "generateRecordHash env r \<in> hr_hashes c'"
    using s(5) mono by (auto simp: record_row_def)
  ultimately show ?case
    using s(1) s(3) ih by (intro conjI) (simp, blast, simp, blast, simp)
qed


lemma insert_workout_list_ok:
  assumes "tx c = Some w" "insert_workout_list env ws (c, k) = Inr (c', k')"
  shows "(\<forall>x\<in>set ws. workouts_rejects env (workout_row env x (generateWorkoutHash env x)) = None) \<and>
         (\<exists>w'. tx c' = Some w') \<and>
         health_raw (visible c') = health_raw (visible c) \<and>
         (\<exists>new. workouts_tbl (visible c') = workouts_tbl (visible c) @ new \<and>
            set new \<subseteq> (\<lambda>x. workout_row env x (generateWorkoutHash env x)) ` set ws) \<and>
         (\<forall>x\<in>set ws. generateWorkoutHash env x \<in> wo_hashes c')"
  using assms
proof (induction ws arbitrary: c k w)
  case Nil
  then show ?case by simp
next
  case (Cons x ws)
  let ?row = "workout_row env x (generateWorkoutHash env x)"
  from Cons.prems(2) obtain n c1 where
    step: "insert_workouts env ?row c = Inr (n, c1)"
    by (auto split: sum.splits)
  with Cons.prems(2) obtain k1 where rest: "insert_workout_list env ws (c1, k1) = Inr (c', k')"
    by (auto split: if_splits)
  note s = insert_workouts_step[OF Cons.prems(1) step]
  from s(2) obtain w1 where w1: "tx c1 = Some w1" by blast
  note ih = Cons.IH[OF w1 rest]
  from s(4) obtain new1 where new1: "workouts_tbl (visible c1) = workouts_tbl (visible c) @ new1"
    "set new1 \<subseteq> {?row}" by blast
  from ih obtain new2 where new2: "workouts_tbl (visible c') = workouts_tbl (visible c1) @ new2"
    "set new2 \<subseteq> (\<lambda>x. workout_row env x (generateWorkoutHash env x)) ` set ws" by blast
  have mono: "wo_hashes c1 \<subseteq> wo_hashes c'"
    using new2(1) by (auto simp: wo_hashes_def)
  have "workouts_tbl (visible c') = workouts_tbl (visible c) @ (new1 @ new2)"
    using new1 new2 by simp
  moreover have "set (new1 @ new2) \<subseteq> (\<lambda>x. workout_row env x (generateWorkoutHash env x)) ` set (x # ws)"
    using new1(2) new2(2) by auto
  moreover have "generateWorkoutHash env x \<in> wo_hashes c'"
    using s(5) mono by (auto simp: workout_row_def)
  ultimately show ?case
    using s(1) s(3) ih by (intro conjI) (simp, blast, simp, blast, simp)
qed

text \<open>Replaying elements whose hashes are all stored: nothing is written, each one is counted
  as a duplicate.\<close>

lemma insert_records_replay:
  assumes "tx c = Some w"
    and "\<forall>r\<in>set rs. health_raw_rejects env (record_row env r (generateRecordHash env r)) = None"
    and "\<forall>r\<in>set rs. generateRecordHash env r \<in> hr_hashes c"
  shows "insert_records env rs (c, k) =
           Inr (c, k\<lparr>skippedDuplicates := skippedDuplicates k + length rs\<rparr>)"
  using assms
proof (induction rs arbitrary: k)
  case Nil
  then show ?case by simp
next
  case (Cons r rs)
  have step: "insert_health_raw env (record_row env r (generateRecordHash env r)) c = Inr (0, c)"
    using Cons.prems by (simp add: insert_health_raw_def hr_hashes_def record_row_def)
  show ?case
    using Cons.IH[of "k\<lparr>skippedDuplicates := skippedDuplicates k + 1\<rparr>"] Cons.prems step
    by simp
qed

lemma insert_workout_list_replay:
  assumes "tx c = Some w"
    and "\<forall>x\<in>set ws. workouts_rejects env (workout_row env x (generateWorkoutHash env x)) = None"
    and "\<forall>x\<in>set ws. generateWorkoutHash env x \<in> wo_hashes c"
  shows "insert_workout_list env ws (c, k) =
           Inr (c, k\<lparr>skippedDuplicates := skippedDuplicates k + length ws\<rparr>)"
  using assms
proof (induction ws arbitrary: k)
  case Nil
  then show ?case by simp
next
  case (Cons x ws)
  have step: "insert_workouts env (workout_row env x (generateWorkoutHash env x)) c = Inr (0, c)"
    using Cons.prems by (simp add: insert_workouts_def wo_hashes_def workout_row_def)
  show ?case
    using Cons.IH[of "k\<lparr>skippedDuplicates := skippedDuplicates k + 1\<rparr>"] Cons.prems step
    by simp
qed

lemma run_inserts_eq:
  "run_inserts env batch c0 =
     (case insert_records env (the_list (records batch))
             (query_BEGIN c0, \<lparr>insertedRecords = 0, insertedWorkouts = 0, skippedDuplicates = 0\<rparr>) of
        Inl err \<Rightarrow> Inl err
      | Inr ck \<Rightarrow> insert_workout_list env (the_list (workouts batch)) ck)"
proof -
  have a: "\<And>rs ck. (if length rs > 0 then insert_records env rs ck else Inr ck) = insert_records env rs ck"
    by (case_tac rs; case_tac ck) auto
  have b: "\<And>ws ck. (if length ws > 0 then insert_workout_list env ws ck else Inr ck) = insert_workout_list env ws ck"
    by (case_tac ws; case_tac ck) auto
  show ?thesis
    unfolding run_inserts_def Let_def the_list_def
    by (cases "records batch"; cases "workouts batch")
       (auto simp del: length_greater_0_conv simp: a b split: sum.splits)
qed


lemma run_inserts_ok:
  assumes "run_inserts env batch \<lparr>store = d, tx = None\<rparr> = Inr (c, k)"
  shows "(\<forall>r\<in>set (the_list (records batch)).
            health_raw_rejects env (record_row env r (generateRecordHash env r)) = None) \<and>
         (\<forall>x\<in>set (the_list (workouts batch)).
            workouts_rejects env (workout_row env x (generateWorkoutHash env x)) = None) \<and>
         (\<forall>r\<in>set (the_list (records batch)). generateRecordHash env r \<in> hr_hashes c) \<and>
         (\<forall>x\<in>set (the_list (workouts batch)). generateWorkoutHash env x \<in> wo_hashes c) \<and>
         (\<exists>new. health_raw (visible c) = health_raw d @ new \<and>
            set new \<subseteq> (\<lambda>r. record_row env r (generateRecordHash env r)) ` set (the_list (records batch))) \<and>
         (\<exists>new. workouts_tbl (visible c) = workouts_tbl d @ new \<and>
            set new \<subseteq> (\<lambda>x. workout_row env x (generateWorkoutHash env x)) ` set (the_list (workouts batch))) \<and>
         store (query_COMMIT c) = visible c"
proof -
  let ?c1 = "query_BEGIN \<lparr>store = d, tx = None\<rparr>"
  let ?k0 = "\<lparr>insertedRecords = 0, insertedWorkouts = 0, skippedDuplicates = 0\<rparr>"
  have c1: "tx ?c1 = Some d" "visible ?c1 = d" by (simp_all add: query_BEGIN_def visible_def)
  from assms obtain c2 k2 where
    r: "insert_records env (the_list (records batch)) (?c1, ?k0) = Inr (c2, k2)" and
    w: "insert_workout_list env (the_list (workouts batch)) (c2, k2) = Inr (c, k)"
    by (auto simp: run_inserts_eq split: sum.splits)
  note R = insert_records_ok[OF c1(1) r]
  from R obtain w2 where w2: "tx c2 = Some w2" by blast
  note W = insert_workout_list_ok[OF w2 w]
  from W obtain w3 where w3: "tx c = Some w3" by blast
  have hr: "health_raw (visible c) = health_raw (visible c2)" using W by simp
  have "hr_hashes c = hr_hashes c2" using hr by (simp add: hr_hashes_def)
  moreover have "store (query_COMMIT c) = visible c"
    using w3 by (simp add: query_COMMIT_def visible_def)
  ultimately show ?thesis
    using R W c1(2) hr by (intro conjI) (simp, simp, simp, simp, simp, simp, simp)
qed

lemma POST_replay:
  assumes "json req = Inr batch" "POST env req d = (Success_200 k, d1)"
  shows "POST env req d1 =
           (Success_200 \<lparr>insertedRecords = 0, insertedWorkouts = 0,
              skippedDuplicates = length (the_list (records batch)) + length (the_list (workouts batch))\<rparr>, d1)"
proof -
  from assms have auth: "\<not> unauthorized env req" and conn: "pool_connect_error env = None"
    by (auto simp: POST_def split: if_splits option.splits)
  from assms auth conn obtain c where
    run: "run_inserts env batch \<lparr>store = d, tx = None\<rparr> = Inr (c, k)" and
    d1: "d1 = store (query_COMMIT c)"
    by (auto simp: POST_def split: sum.splits prod.splits)
  note ok = run_inserts_ok[OF run]
  from ok d1 have vis: "visible c = d1" by simp
  let ?c1 = "query_BEGIN \<lparr>store = d1, tx = None\<rparr>"
  let ?k0 = "\<lparr>insertedRecords = 0, insertedWorkouts = 0, skippedDuplicates = 0\<rparr>"
  have c1: "tx ?c1 = Some d1" "visible ?c1 = d1" by (simp_all add: query_BEGIN_def visible_def)
  have h1: "hr_hashes ?c1 = hr_hashes c" "wo_hashes ?c1 = wo_hashes c"
    using c1(2) vis by (simp_all add: hr_hashes_def wo_hashes_def)
  have r: "insert_records env (the_list (records batch)) (?c1, ?k0) =
             Inr (?c1, ?k0\<lparr>skippedDuplicates := skippedDuplicates ?k0 + length (the_list (records batch))\<rparr>)"
    using ok h1 by (intro insert_records_replay[OF c1(1)]) simp_all
  have w: "insert_workout_list env (the_list (workouts batch))
             (?c1, ?k0\<lparr>skippedDuplicates := skippedDuplicates ?k0 + length (the_list (records batch))\<rparr>) =
             Inr (?c1, \<lparr>insertedRecords = 0, insertedWorkouts = 0,
                skippedDuplicates = length (the_list (records batch)) + length (the_list (workouts batch))\<rparr>)"
    using ok h1 insert_workout_list_replay[OF c1(1), of "the_list (workouts batch)" env
        "?k0\<lparr>skippedDuplicates := skippedDuplicates ?k0 + length (the_list (records batch))\<rparr>"]
    by simp
  have "run_inserts env batch \<lparr>store = d1, tx = None\<rparr> =
          Inr (?c1, \<lparr>insertedRecords = 0, insertedWorkouts = 0,
                skippedDuplicates = length (the_list (records batch)) + length (the_list (workouts batch))\<rparr>)"
    using r w by (simp add: run_inserts_eq)
  moreover have "store (query_COMMIT ?c1) = d1"
    by (simp add: query_COMMIT_def query_BEGIN_def)
  ultimately show ?thesis
    using auth conn assms(1) by (simp add: POST_def)
qed

lemma POST_cases:
  "(\<exists>e. POST env req d = (SyncFailed_500 e, d)) \<or> POST env req d = (Unauthorized_401, d) \<or>
   (\<exists>k d1 batch. json req = Inr batch \<and> POST env req d = (Success_200 k, d1))"
proof (cases "POST env req d")
  case (Pair resp d')
  show ?thesis
  proof (cases resp)
    case Unauthorized_401
    with Pair show ?thesis by (auto simp: POST_def split: if_splits sum.splits option.splits prod.splits)
  next
    case (SyncFailed_500 e)
    with Pair POST_failed_keeps_db[of env req d e d'] show ?thesis by simp
  next
    case (Success_200 k)
    with Pair show ?thesis by (auto simp: POST_def split: if_splits sum.splits option.splits prod.splits)
  qed
qed

text \<open>
  C2. Posting a batch a second time leaves the stored rows exactly as the first request left
  them. When the first request was accepted (answered with success), the second one is
  accepted too, inserts no record and no workout, and counts every record and every workout
  of the batch as a skipped duplicate.
\<close>

theorem idempotent_insert:
  "snd (POST env req (snd (POST env req d))) = snd (POST env req d) \<and>
   (json req = Inr batch \<and> POST env req d = (Success_200 k, d1) \<longrightarrow>
      POST env req d1 =
        (Success_200 \<lparr>insertedRecords = 0, insertedWorkouts = 0,
           skippedDuplicates = length (the_list (records batch)) + length (the_list (workouts batch))\<rparr>, d1))"
proof
  show "snd (POST env req (snd (POST env req d))) = snd (POST env req d)"
    using POST_cases[of env req d] POST_replay[of req _ env d] by auto
  show "json req = Inr batch \<and> POST env req d = (Success_200 k, d1) \<longrightarrow>
      POST env req d1 =
        (Success_200 \<lparr>insertedRecords = 0, insertedWorkouts = 0,
           skippedDuplicates = length (the_list (records batch)) + length (the_list (workouts batch))\<rparr>, d1)"
    using POST_replay by blast
qed


lemma ex_first_post:
  "fst (POST ex_env ex_request empty_db) =
     Success_200 \<lparr>insertedRecords = 2, insertedWorkouts = 1, skippedDuplicates = 0\<rparr>"
  by (simp add: server_eval)

theorem idempotent_insert_witness:
  "POST ex_env ex_request (snd (POST ex_env ex_request empty_db)) =
     (Success_200 \<lparr>insertedRecords = 0, insertedWorkouts = 0, skippedDuplicates = 3\<rparr>,
      snd (POST ex_env ex_request empty_db)) \<and>
   length (health_raw (snd (POST ex_env ex_request empty_db))) = 2"
proof -
  have j: "json ex_request = Inr ex_batch" by (simp add: ex_request_def)
  have p: "POST ex_env ex_request empty_db =
      (Success_200 \<lparr>insertedRecords = 2, insertedWorkouts = 1, skippedDuplicates = 0\<rparr>,
       snd (POST ex_env ex_request empty_db))"
    using ex_first_post by (simp add: prod_eq_iff)
  have n: "length (the_list (records ex_batch)) + length (the_list (workouts ex_batch)) = 3"
    by (simp add: ex_batch_def the_list_def)
  have l: "length (health_raw (snd (POST ex_env ex_request empty_db))) = 2"
    by (simp add: server_eval)
  from idempotent_insert[of ex_env ex_request empty_db ex_batch _ "snd (POST ex_env ex_request empty_db)"]
    j p n l show ?thesis by simp
qed

lemma insert_records_rejected:
  "r \<in> set rs \<Longrightarrow> health_raw_rejects env (record_row env r (generateRecordHash env r)) \<noteq> None \<Longrightarrow>
     \<exists>err. insert_records env rs (c, k) = Inl err"
proof (induction rs arbitrary: c k)
  case Nil
  then show ?case by simp
next
  case (Cons a rs)
  show ?case
  proof (cases "insert_health_raw env (record_row env a (generateRecordHash env a)) c")
    case (Inl e)
    then show ?thesis by simp
  next
    case (Inr p)
    then have "health_raw_rejects env (record_row env a (generateRecordHash env a)) = None"
      by (auto simp: insert_health_raw_def split: option.splits)
    with Cons.prems have "r \<in> set rs" by auto
    from Cons.IH[OF this Cons.prems(2)] Inr show ?thesis
      by (cases p) simp
  qed
qed

lemma insert_workout_list_rejected:
  "x \<in> set ws \<Longrightarrow> workouts_rejects env (workout_row env x (generateWorkoutHash env x)) \<noteq> None \<Longrightarrow>
     \<exists>err. insert_workout_list env ws (c, k) = Inl err"
proof (induction ws arbitrary: c k)
  case Nil
  then show ?case by simp
next
  case (Cons a ws)
  show ?case
  proof (cases "insert_workouts env (workout_row env a (generateWorkoutHash env a)) c")
    case (Inl e)
    then show ?thesis by simp
  next
    case (Inr p)
    then have "workouts_rejects env (workout_row env a (generateWorkoutHash env a)) = None"
      by (auto simp: insert_workouts_def split: option.splits)
    with Cons.prems have "x \<in> set ws" by auto
    from Cons.IH[OF this Cons.prems(2)] Inr show ?thesis
      by (cases p) simp
  qed
qed

lemma run_inserts_rejected:
  assumes "element_raises env batch"
  shows "\<exists>err. run_inserts env batch c0 = Inl err"
proof (cases "insert_records env (the_list (records batch))
             (query_BEGIN c0, \<lparr>insertedRecords = 0, insertedWorkouts = 0, skippedDuplicates = 0\<rparr>)")
  case (Inl err)
  then show ?thesis by (simp add: run_inserts_eq)
next
  case (Inr ck)
  have "\<not> list_ex (\<lambda>r. health_raw_rejects env (record_row env r (generateRecordHash env r)) \<noteq> None)
        (the_list (records batch))"
  proof
    assume "list_ex (\<lambda>r. health_raw_rejects env (record_row env r (generateRecordHash env r)) \<noteq> None)
        (the_list (records batch))"
    then obtain r where "r \<in> set (the_list (records batch))"
      "health_raw_rejects env (record_row env r (generateRecordHash env r)) \<noteq> None"
      by (auto simp: list_ex_iff)
    from insert_records_rejected[OF this, of "query_BEGIN c0"
        "\<lparr>insertedRecords = 0, insertedWorkouts = 0, skippedDuplicates = 0\<rparr>"] Inr
    show False by simp
  qed
  with assms obtain x where "x \<in> set (the_list (workouts batch))"
    "workouts_rejects env (workout_row env x (generateWorkoutHash env x)) \<noteq> None"
    by (auto simp: element_raises_def list_ex_iff)
  from insert_workout_list_rejected[OF this, of "fst ck" "snd ck"] Inr show ?thesis
    by (simp add: run_inserts_eq)
qed

lemma POST_rejected:
  assumes "\<not> unauthorized env req" "json req = Inr batch" "pool_connect_error env = None"
    "element_raises env batch"
  shows "\<exists>e. POST env req d = (SyncFailed_500 e, d)"
proof -
  from run_inserts_rejected[OF assms(4)] obtain e c where
    r: "run_inserts env batch \<lparr>store = d, tx = None\<rparr> = Inl (e, c)" by fastforce
  from run_inserts_Inl[OF r] have "store c = d" .
  with r assms show ?thesis by (simp add: POST_def query_ROLLBACK_def)
qed

lemma POST_keeps_rows:
  "prefix (health_raw d) (health_raw (snd (POST env req d))) \<and>
   prefix (workouts_tbl d) (workouts_tbl (snd (POST env req d)))"
proof -
  consider (err) e where "POST env req d = (SyncFailed_500 e, d)"
    | (una) "POST env req d = (Unauthorized_401, d)"
    | (ok) k d1 batch where "json req = Inr batch" "POST env req d = (Success_200 k, d1)"
    using POST_cases[of env req d] by blast
  then show ?thesis
  proof cases
    case ok
    then obtain c where run: "run_inserts env batch \<lparr>store = d, tx = None\<rparr> = Inr (c, k)"
      and d1: "d1 = store (query_COMMIT c)"
      by (auto simp: POST_def split: if_splits option.splits sum.splits prod.splits)
    from run_inserts_ok[OF run] d1 ok show ?thesis by (auto simp: prefix_def)
  qed simp_all
qed

lemma POST_new_workout_rows:
  assumes "row \<in> set (workouts_tbl (snd (POST env req d)))" "row \<notin> set (workouts_tbl d)"
  shows "\<exists>batch w. json req = Inr batch \<and> w \<in> set (the_list (workouts batch)) \<and>
           row = workout_row env w (generateWorkoutHash env w)"
proof -
  consider (err) e where "POST env req d = (SyncFailed_500 e, d)"
    | (una) "POST env req d = (Unauthorized_401, d)"
    | (ok) k d1 batch where "json req = Inr batch" "POST env req d = (Success_200 k, d1)"
    using POST_cases[of env req d] by blast
  then show ?thesis
  proof cases
    case ok
    then obtain c where run: "run_inserts env batch \<lparr>store = d, tx = None\<rparr> = Inr (c, k)"
      and d1: "d1 = store (query_COMMIT c)"
      by (auto simp: POST_def split: if_splits option.splits sum.splits prod.splits)
    from run_inserts_ok[OF run] d1 obtain new where
      "workouts_tbl d1 = workouts_tbl d @ new"
      "set new \<subseteq> (\<lambda>x. workout_row env x (generateWorkoutHash env x)) ` set (the_list (workouts batch))"
      by auto
    with assms ok show ?thesis by auto
  qed (use assms in simp_all)
qed

lemma workout_row_units:
  "total_distance_unit (workout_row env w h) =
     (if total_distance (workout_row env w h) = None \<or> total_distance (workout_row env w h) = Some 0
      then None else Some ''mi'') \<and>
   total_energy_unit (workout_row env w h) =
     (if total_energy_burned (workout_row env w h) = None \<or> total_energy_burned (workout_row env w h) = Some 0
      then None else Some ''kcal'')"
  by (auto simp: workout_row_def truthy_def split: option.splits)

text \<open>
  C10. The unit columns follow the truthiness of the value: the row built for a workout has
  no distance unit when \<^verbatim>\<open>totalDistance\<close> is absent or zero and the unit
  \<^verbatim>\<open>mi\<close> otherwise, no energy unit when \<^verbatim>\<open>totalEnergyBurned\<close> is absent
  or zero and \<^verbatim>\<open>kcal\<close> otherwise; and every row a request adds to the workouts
  table is such a row, so a stored zero and a stored \<^verbatim>\<open>NULL\<close> value carry the same
  (\<^verbatim>\<open>NULL\<close>) unit.
\<close>

theorem unit_by_truthiness:
  "total_distance_unit (workout_row env w h) =
     (if totalDistance w = None \<or> totalDistance w = Some 0 then None else Some ''mi'') \<and>
   total_energy_unit (workout_row env w h) =
     (if totalEnergyBurned w = None \<or> totalEnergyBurned w = Some 0 then None else Some ''kcal'') \<and>
   (\<forall>row \<in> set (workouts_tbl (snd (POST env req d))) - set (workouts_tbl d).
      total_distance_unit row =
        (if total_distance row = None \<or> total_distance row = Some 0 then None else Some ''mi'') \<and>
      total_energy_unit row =
        (if total_energy_burned row = None \<or> total_energy_burned row = Some 0 then None else Some ''kcal''))"
proof (intro conjI ballI)
  fix row assume "row \<in> set (workouts_tbl (snd (POST env req d))) - set (workouts_tbl d)"
  then obtain batch w' where row: "row = workout_row env w' (generateWorkoutHash env w')"
    using POST_new_workout_rows[of row env req d] by blast
  show "total_distance_unit row =
        (if total_distance row = None \<or> total_distance row = Some 0 then None else Some ''mi'')"
    using workout_row_units[of env w' "generateWorkoutHash env w'"] row by simp
  show "total_energy_unit row =
        (if total_energy_burned row = None \<or> total_energy_burned row = Some 0 then None else Some ''kcal'')"
    using workout_row_units[of env w' "generateWorkoutHash env w'"] row by simp
qed (auto simp: workout_row_def truthy_def split: option.splits)

theorem unit_by_truthiness_witness:
  "workouts_tbl (snd (POST ex_env (ex_request\<lparr>json := Inr (ex_batch\<lparr>workouts := Some [ex_walk, ex_run]\<rparr>)\<rparr>) empty_db)) =
     [workout_row ex_env ex_walk (generateWorkoutHash ex_env ex_walk),
      workout_row ex_env ex_run (generateWorkoutHash ex_env ex_run)] \<and>
   totalDistance ex_walk = Some 0 \<and>
   total_distance_unit (workout_row ex_env ex_walk (generateWorkoutHash ex_env ex_walk)) = None \<and>
   total_energy_unit (workout_row ex_env ex_walk (generateWorkoutHash ex_env ex_walk)) = Some ''kcal'' \<and>
   total_distance_unit (workout_row ex_env ex_run (generateWorkoutHash ex_env ex_run)) = Some ''mi'' \<and>
   total_energy_unit (workout_row ex_env ex_run (generateWorkoutHash ex_env ex_run)) = None"
proof -
  let ?req = "ex_request\<lparr>json := Inr (ex_batch\<lparr>workouts := Some [ex_walk, ex_run]\<rparr>)\<rparr>"
  let ?walk = "workout_row ex_env ex_walk (generateWorkoutHash ex_env ex_walk)"
  let ?run = "workout_row ex_env ex_run (generateWorkoutHash ex_env ex_run)"
  have tbl: "workouts_tbl (snd (POST ex_env ?req empty_db)) = [?walk, ?run]"
    by (simp add: server_eval)
  have old: "workouts_tbl empty_db = []" by (simp add: empty_db_def)
  have mem: "?walk \<in> set (workouts_tbl (snd (POST ex_env ?req empty_db))) - set (workouts_tbl empty_db)"
    "?run \<in> set (workouts_tbl (snd (POST ex_env ?req empty_db))) - set (workouts_tbl empty_db)"
    unfolding tbl old by simp_all
  note t = unit_by_truthiness[of ex_env ex_walk "generateWorkoutHash ex_env ex_walk" ?req empty_db]
  have vals: "total_distance ?walk = Some 0" "total_energy_burned ?walk = Some 72"
    "total_distance ?run = Some 72" "total_energy_burned ?run = None" "totalDistance ex_walk = Some 0"
    by (simp_all add: workout_row_def ex_walk_def ex_run_def)
  from t mem[THEN bspec[OF t[THEN conjunct2, THEN conjunct2]]] vals tbl
  show ?thesis by simp
qed

text \<open>
  C8. The handler never reads \<^verbatim>\<open>deletedUUIDs\<close>: two requests that differ only in
  that field get the same response and leave the same tables; and no request removes a
  stored row, the tables before a request are a prefix of the tables after it.
\<close>

theorem deletion_markers_ignored:
  "POST env (req\<lparr>json := Inr (batch\<lparr>deletedUUIDs := del\<rparr>)\<rparr>) d = POST env (req\<lparr>json := Inr batch\<rparr>) d \<and>
   prefix (health_raw d) (health_raw (snd (POST env req d))) \<and>
   prefix (workouts_tbl d) (workouts_tbl (snd (POST env req d)))"
proof -
  have "run_inserts env (batch\<lparr>deletedUUIDs := del\<rparr>) = run_inserts env batch"
    by (rule ext) (simp add: run_inserts_eq cong: sum.case_cong)
  then have "POST env (req\<lparr>json := Inr (batch\<lparr>deletedUUIDs := del\<rparr>)\<rparr>) d =
      POST env (req\<lparr>json := Inr batch\<rparr>) d"
    by (simp add: POST_def unauthorized_def split: option.splits)
  with POST_keeps_rows[of d env req] show ?thesis by simp
qed

theorem deletion_markers_ignored_witness:
  "POST ex_env (ex_request\<lparr>json := Inr (ex_batch\<lparr>deletedUUIDs := []\<rparr>)\<rparr>) empty_db =
     POST ex_env ex_request empty_db \<and>
   deletedUUIDs ex_batch = [''u1'']"
  using deletion_markers_ignored[where env = ex_env and req = ex_request and batch = ex_batch
      and del = "[]" and d = empty_db]
  by (simp add: ex_request_def ex_batch_def)


text \<open>
  C4. A request whose \<^verbatim>\<open>Authorization\<close> header is missing, does not start with
  \<^verbatim>\<open>Bearer \<close>, or carries another secret is answered with 401 and leaves the
  tables as they were, whatever its body is: the body, the hashes and the database play no
  part in the answer.
\<close>

theorem authentication_first:
  "authorization req = None \<or>
   (\<exists>h. authorization req = Some h \<and> (\<not> prefix ''Bearer '' h \<or> drop 7 h \<noteq> API_SECRET env))
   \<Longrightarrow> POST env req d = (Unauthorized_401, d)"
  by (auto simp: POST_def unauthorized_def)

theorem authentication_first_witness:
  "POST ex_env (ex_request\<lparr>authorization := None\<rparr>) empty_db = (Unauthorized_401, empty_db) \<and>
   POST ex_env (ex_request\<lparr>authorization := Some ''Basic s3cret''\<rparr>) empty_db = (Unauthorized_401, empty_db) \<and>
   POST ex_env (ex_request\<lparr>authorization := Some ''Bearer guess''\<rparr>) empty_db = (Unauthorized_401, empty_db)"
proof -
  have 1: "authorization (ex_request\<lparr>authorization := None\<rparr>) = None" by simp
  have 2: "\<exists>h. authorization (ex_request\<lparr>authorization := Some ''Basic s3cret''\<rparr>) = Some h \<and>
      (\<not> prefix ''Bearer '' h \<or> drop 7 h \<noteq> API_SECRET ex_env)" by simp
  have 3: "\<exists>h. authorization (ex_request\<lparr>authorization := Some ''Bearer guess''\<rparr>) = Some h \<and>
      (\<not> prefix ''Bearer '' h \<or> drop 7 h \<noteq> API_SECRET ex_env)"
    by (simp add: API_SECRET_def ex_env_def)
  show ?thesis
    using authentication_first[of "ex_request\<lparr>authorization := None\<rparr>" ex_env empty_db, OF disjI1, OF 1]
      authentication_first[of "ex_request\<lparr>authorization := Some ''Basic s3cret''\<rparr>" ex_env empty_db, OF disjI2, OF 2]
      authentication_first[of "ex_request\<lparr>authorization := Some ''Bearer guess''\<rparr>" ex_env empty_db, OF disjI2, OF 3]
    by simp
qed

text \<open>
  C3. A request that is answered with the storage error leaves the tables exactly as they
  were before it; and a batch in which any record or workout makes its \<^verbatim>\<open>INSERT\<close>
  raise is answered with that error, so none of its elements is stored, whatever was
  inserted inside the transaction before the failing element.
\<close>

theorem atomic_batch_commit:
  "(POST env req d = (SyncFailed_500 e, d') \<longrightarrow> d' = d) \<and>
   (\<not> unauthorized env req \<and> json req = Inr batch \<and> pool_connect_error env = None \<and>
    element_raises env batch \<longrightarrow> (\<exists>e'. POST env req d = (SyncFailed_500 e', d)))"
  using POST_failed_keeps_db[of env req d e d'] POST_rejected[of env req batch d] by blast

theorem atomic_batch_commit_witness:
  "element_raises ex_env ex_bad_batch \<and>
   (\<exists>e. POST ex_env (ex_request\<lparr>json := Inr ex_bad_batch\<rparr>) empty_db = (SyncFailed_500 e, empty_db)) \<and>
   fst (POST ex_env (ex_request\<lparr>json := Inr (ex_batch\<lparr>records := Some [ex_record]\<rparr>)\<rparr>) empty_db) =
     Success_200 \<lparr>insertedRecords = 1, insertedWorkouts = 1, skippedDuplicates = 0\<rparr>"
proof -
  have a: "\<not> unauthorized ex_env (ex_request\<lparr>json := Inr ex_bad_batch\<rparr>)"
    by (simp add: server_eval)
  have b: "json (ex_request\<lparr>json := Inr ex_bad_batch\<rparr>) = Inr ex_bad_batch" by simp
  have c: "pool_connect_error ex_env = None" by (simp add: ex_env_def)
  have d: "element_raises ex_env ex_bad_batch" by (simp add: server_eval)
  have e: "fst (POST ex_env (ex_request\<lparr>json := Inr (ex_batch\<lparr>records := Some [ex_record]\<rparr>)\<rparr>) empty_db) =
     Success_200 \<lparr>insertedRecords = 1, insertedWorkouts = 1, skippedDuplicates = 0\<rparr>"
    by (simp add: server_eval)
  from atomic_batch_commit[of ex_env "ex_request\<lparr>json := Inr ex_bad_batch\<rparr>" empty_db _ _ ex_bad_batch]
    a b c d e show ?thesis by blast
qed

section \<open>Properties of the upload queue\<close>

lemmas pb_defs = processBatch_def uploadBatch_def Date_init_def setLastSyncTime_def Let_def
  sendable_def

lemma processBatch_frame:
  "uploadQueue (processBatch env cfg b s) = uploadQueue s"
  "isProcessingQueue (processBatch env cfg b s) = isProcessingQueue s"
  "isSyncing (processBatch env cfg b s) = isSyncing s"
  "syncManagerSet (processBatch env cfg b s) = syncManagerSet s"
  "typeStatuses (processBatch env cfg b s) = typeStatuses s"
  "anchoredQueries (processBatch env cfg b s) = anchoredQueries s"
  "refreshes (processBatch env cfg b s) = refreshes s"
  "pendingBatches (processBatch env cfg b s) = length (uploadQueue s)"
  by (auto simp: pb_defs split: option.splits URLResult.splits prod.splits)

lemma processBatch_uploads:
  "uploads (processBatch env cfg b s) = uploads s @ (if sendable env cfg b then [b] else [])"
  by (auto simp: pb_defs split: option.splits URLResult.splits prod.splits)

lemma processBatch_anchor:
  "defaults (processBatch env cfg b s) (anchorKey ty) = defaults s (anchorKey ty)"
  by (auto simp: pb_defs anchorKey_def keyPrefix_def lastSyncKeyPrefix_def
           split: option.splits URLResult.splits prod.splits)

lemma processBatch_failure:
  assumes "fst (uploadBatch env cfg b (s\<lparr>pendingBatches := length (uploadQueue s)\<rparr>)) = Some err"
  shows "lastError (processBatch env cfg b s) = Some (localizedDescription env err)"
    and "lastSyncTime (processBatch env cfg b s) = lastSyncTime s"
    and "defaults (processBatch env cfg b s) = defaults s"
    and "clockReads (processBatch env cfg b s) = clockReads s"
  using assms
  by (auto simp: pb_defs split: option.splits URLResult.splits prod.splits if_splits)

lemma processBatch_success:
  assumes "fst (uploadBatch env cfg b (s\<lparr>pendingBatches := length (uploadQueue s)\<rparr>)) = None"
  shows "lastError (processBatch env cfg b s) = None"
    and "\<exists>k. lastSyncTime (processBatch env cfg b s) = Some (Date_now env k)"
  using assms
  by (auto simp: pb_defs split: option.splits URLResult.splits prod.splits if_splits)


lemma drainQueue_Nil: "uploadQueue s = [] \<Longrightarrow> drainQueue env cfg s = s"
  by (subst drainQueue.simps) simp

lemma drainQueue_Cons:
  "uploadQueue s = b # rest \<Longrightarrow>
     drainQueue env cfg s = drainQueue env cfg (processBatch env cfg b (s\<lparr>uploadQueue := rest\<rparr>))"
  by (subst drainQueue.simps) simp

lemma drainQueue_spec:
  "uploadQueue s = q \<Longrightarrow>
     uploadQueue (drainQueue env cfg s) = [] \<and>
     pendingBatches (drainQueue env cfg s) = (if q = [] then pendingBatches s else 0) \<and>
     uploads (drainQueue env cfg s) = uploads s @ filter (sendable env cfg) q \<and>
     isProcessingQueue (drainQueue env cfg s) = isProcessingQueue s \<and>
     isSyncing (drainQueue env cfg s) = isSyncing s \<and>
     syncManagerSet (drainQueue env cfg s) = syncManagerSet s \<and>
     typeStatuses (drainQueue env cfg s) = typeStatuses s \<and>
     anchoredQueries (drainQueue env cfg s) = anchoredQueries s \<and>
     refreshes (drainQueue env cfg s) = refreshes s \<and>
     defaults (drainQueue env cfg s) (anchorKey ty) = defaults s (anchorKey ty)"
proof (induction q arbitrary: s)
  case Nil
  then show ?case by (simp add: drainQueue_Nil)
next
  case (Cons b rest)
  let ?s1 = "processBatch env cfg b (s\<lparr>uploadQueue := rest\<rparr>)"
  have q1: "uploadQueue ?s1 = rest" by (simp add: processBatch_frame)
  note ih = Cons.IH[OF q1]
  have eq: "drainQueue env cfg s = drainQueue env cfg ?s1"
    using Cons.prems by (rule drainQueue_Cons)
  show ?case
    unfolding eq using ih
    by (simp add: processBatch_frame processBatch_uploads processBatch_anchor)
qed

lemma fst_uploadBatch_cong:
  "length (uploads s) = length (uploads s') \<Longrightarrow>
     fst (uploadBatch env cfg b s) = fst (uploadBatch env cfg b s')"
  by (auto simp: uploadBatch_def Let_def split: option.splits URLResult.splits)

lemma drainQueue_all_fail:
  "uploadQueue s = q \<Longrightarrow> (\<forall>b\<in>set q. \<forall>s'. fst (uploadBatch env cfg b s') \<noteq> None) \<Longrightarrow>
     lastSyncTime (drainQueue env cfg s) = lastSyncTime s \<and>
     defaults (drainQueue env cfg s) = defaults s \<and>
     clockReads (drainQueue env cfg s) = clockReads s \<and>
     (q \<noteq> [] \<longrightarrow> lastError (drainQueue env cfg s) \<noteq> None)"
proof (induction q arbitrary: s)
  case Nil
  then show ?case by (simp add: drainQueue_Nil)
next
  case (Cons b rest)
  let ?s0 = "s\<lparr>uploadQueue := rest\<rparr>"
  let ?s1 = "processBatch env cfg b ?s0"
  have q1: "uploadQueue ?s1 = rest" by (simp add: processBatch_frame)
  from Cons.prems(2) obtain err where
    err: "fst (uploadBatch env cfg b (?s0\<lparr>pendingBatches := length (uploadQueue ?s0)\<rparr>)) = Some err"
    by fastforce
  note f = processBatch_failure[OF err]
  have rest: "\<forall>b\<in>set rest. \<forall>s'. fst (uploadBatch env cfg b s') \<noteq> None"
    using Cons.prems(2) by simp
  note ih = Cons.IH[OF q1 rest]
  have eq: "drainQueue env cfg s = drainQueue env cfg ?s1"
    using Cons.prems(1) by (rule drainQueue_Cons)
  show ?case
  proof (cases "rest = []")
    case True
    then have "drainQueue env cfg ?s1 = ?s1" using q1 by (simp add: drainQueue_Nil)
    then show ?thesis unfolding eq using f by simp
  next
    case False
    then show ?thesis unfolding eq using ih f by simp
  qed
qed

lemma processQueue_spec:
  assumes "\<not> isProcessingQueue s"
  shows "uploadQueue (processQueue env cfg s) = []"
    and "pendingBatches (processQueue env cfg s) = (if uploadQueue s = [] then pendingBatches s else 0)"
    and "uploads (processQueue env cfg s) = uploads s @ filter (sendable env cfg) (uploadQueue s)"
    and "\<not> isProcessingQueue (processQueue env cfg s)"
    and "\<not> isSyncing (processQueue env cfg s)"
    and "syncManagerSet (processQueue env cfg s) = syncManagerSet s"
    and "typeStatuses (processQueue env cfg s) = typeStatuses s"
    and "anchoredQueries (processQueue env cfg s) = anchoredQueries s"
    and "defaults (processQueue env cfg s) (anchorKey ty) = defaults s (anchorKey ty)"
  using assms
    drainQueue_spec[of "s\<lparr>isProcessingQueue := True, isSyncing := True\<rparr>" "uploadQueue s" env cfg ty]
  by (simp_all add: processQueue_def refreshMaterializedView_def Let_def)

lemma processQueue_all_fail:
  assumes "\<not> isProcessingQueue s"
    and "\<forall>b\<in>set (uploadQueue s). \<forall>s'. fst (uploadBatch env cfg b s') \<noteq> None"
  shows "lastSyncTime (processQueue env cfg s) = lastSyncTime s"
    and "defaults (processQueue env cfg s) = defaults s"
    and "uploadQueue s \<noteq> [] \<longrightarrow> lastError (processQueue env cfg s) \<noteq> None"
  using assms
    drainQueue_all_fail[of "s\<lparr>isProcessingQueue := True, isSyncing := True\<rparr>" "uploadQueue s" env cfg]
  by (simp_all add: processQueue_def refreshMaterializedView_def Let_def)

text \<open>
  C9. A run of \<^verbatim>\<open>processQueue\<close> (entered, as from \<^verbatim>\<open>queueBatch\<close>, when no
  run is in progress and the pending count is the queue length) ends with an empty queue and
  a pending count of 0. Every queued batch whose request can be built is sent once, in queue
  order, whether its upload fails or not: a failed batch is not sent again. When every
  upload of the run fails, \<^verbatim>\<open>lastSyncTime\<close> and the stored per-type time stamps are
  as before the run and \<^verbatim>\<open>lastError\<close> is set. In the loop body, a failed upload
  records its error in \<^verbatim>\<open>lastError\<close>, leaves the queue without the batch and
  touches neither \<^verbatim>\<open>lastSyncTime\<close> nor the stored time stamps.
\<close>

theorem failed_batches_dropped:
  assumes "\<not> isProcessingQueue s" and "pendingBatches s = length (uploadQueue s)"
  shows "uploadQueue (processQueue env cfg s) = [] \<and>
         pendingBatches (processQueue env cfg s) = 0 \<and>
         uploads (processQueue env cfg s) = uploads s @ filter (sendable env cfg) (uploadQueue s) \<and>
         ((\<forall>b\<in>set (uploadQueue s). \<forall>s'. fst (uploadBatch env cfg b s') \<noteq> None) \<longrightarrow>
            lastSyncTime (processQueue env cfg s) = lastSyncTime s \<and>
            defaults (processQueue env cfg s) = defaults s \<and>
            (uploadQueue s \<noteq> [] \<longrightarrow> lastError (processQueue env cfg s) \<noteq> None)) \<and>
         (\<forall>b s0 err.
            fst (uploadBatch env cfg b (s0\<lparr>pendingBatches := length (uploadQueue s0)\<rparr>)) = Some err \<longrightarrow>
              lastError (processBatch env cfg b s0) = Some (localizedDescription env err) \<and>
              uploadQueue (processBatch env cfg b s0) = uploadQueue s0 \<and>
              lastSyncTime (processBatch env cfg b s0) = lastSyncTime s0 \<and>
              defaults (processBatch env cfg b s0) = defaults s0)"
  using processQueue_spec(1,2,3)[OF assms(1), of env cfg] assms(2)
    processQueue_all_fail[OF assms(1), of env cfg]
    processBatch_failure(1,2,3)[of env cfg] processBatch_frame(1)[of env cfg]
  by (intro conjI allI impI) simp_all


theorem failed_batches_dropped_witness:
  "uploadQueue (processQueue ex_offline ex_cfg ex_queued) = [] \<and>
   pendingBatches (processQueue ex_offline ex_cfg ex_queued) = 0 \<and>
   uploads (processQueue ex_offline ex_cfg ex_queued) = [ex_deletion_batch, ex_steps_batch] \<and>
   lastSyncTime (processQueue ex_offline ex_cfg ex_queued) = None \<and>
   lastError (processQueue ex_offline ex_cfg ex_queued) \<noteq> None"
proof -
  have 1: "\<not> isProcessingQueue ex_queued" by (simp add: client_eval)
  have 2: "pendingBatches ex_queued = length (uploadQueue ex_queued)" by (simp add: client_eval)
  have 3: "\<forall>b\<in>set (uploadQueue ex_queued). \<forall>s'. fst (uploadBatch ex_offline ex_cfg b s') \<noteq> None"
    by (simp add: client_eval uploadBatch_def Let_def)
  have 4: "filter (sendable ex_offline ex_cfg) (uploadQueue ex_queued) = [ex_deletion_batch, ex_steps_batch]"
    by (simp add: client_eval sendable_def)
  have 5: "uploads ex_queued = []" "lastSyncTime ex_queued = None" "uploadQueue ex_queued \<noteq> []"
    by (simp_all add: client_eval)
  from failed_batches_dropped[OF 1 2, of ex_offline ex_cfg] 3 4 5 show ?thesis by simp
qed

lemma ex_mixed_run:
  "lastError (processQueue (ex_offline\<lparr>URLSession_data :=
       (\<lambda>k b. if k = 0 then URLHTTP 500 (Some ''boom'') else URLHTTP 200 (Some ''ok''))\<rparr>) ex_cfg ex_queued) = None \<and>
   lastSyncTime (processQueue (ex_offline\<lparr>URLSession_data :=
       (\<lambda>k b. if k = 0 then URLHTTP 500 (Some ''boom'') else URLHTTP 200 (Some ''ok''))\<rparr>) ex_cfg ex_queued) = Some 3000001"
  by (simp add: client_eval processQueue_def processBatch_def uploadBatch_def Date_init_def
        setLastSyncTime_def refreshMaterializedView_def HealthDataType_init_def allCases_def Let_def)


lemma queueBatch_idle:
  assumes "idle s"
  shows "idle (queueBatch env cfg b s)"
    and "uploads (queueBatch env cfg b s) = uploads s @ (if sendable env cfg b then [b] else [])"
    and "syncManagerSet (queueBatch env cfg b s) = syncManagerSet s"
    and "typeStatuses (queueBatch env cfg b s) = typeStatuses s"
    and "anchoredQueries (queueBatch env cfg b s) = anchoredQueries s"
    and "defaults (queueBatch env cfg b s) (anchorKey ty) = defaults s (anchorKey ty)"
proof -
  let ?s2 = "s\<lparr>uploadQueue := [b], pendingBatches := Suc 0\<rparr>"
  have np: "\<not> isProcessingQueue ?s2" using assms by (simp add: idle_def)
  have q: "queueBatch env cfg b s = processQueue env cfg ?s2"
    using assms by (simp add: queueBatch_def idle_def Let_def)
  note p = processQueue_spec[OF np]
  show "idle (queueBatch env cfg b s)" by (simp add: q idle_def p)
  show "uploads (queueBatch env cfg b s) = uploads s @ (if sendable env cfg b then [b] else [])"
    by (simp add: q p)
  show "syncManagerSet (queueBatch env cfg b s) = syncManagerSet s" by (simp add: q p)
  show "typeStatuses (queueBatch env cfg b s) = typeStatuses s" by (simp add: q p)
  show "anchoredQueries (queueBatch env cfg b s) = anchoredQueries s" by (simp add: q p)
  show "defaults (queueBatch env cfg b s) (anchorKey ty) = defaults s (anchorKey ty)"
    by (simp add: q p)
qed

section \<open>Chunk arithmetic\<close>

lemma strideFrom_stop: "n \<le> i \<Longrightarrow> strideFrom i n b = []"
  by (subst strideFrom.simps) simp

lemma strideFrom_step: "0 < b \<Longrightarrow> i < n \<Longrightarrow> strideFrom i n b = i # strideFrom (i + b) n b"
  by (subst strideFrom.simps) simp

lemma div_plus_self: "0 < (b::nat) \<Longrightarrow> (m + b) div b = Suc (m div b)"
  by simp

lemma div_step:
  assumes "0 < (b::nat)" "i < n"
  shows "(n - i + b - 1) div b = Suc ((n - (i + b) + b - 1) div b)"
proof (cases "i + b \<le> n")
  case True
  define m where "m = n - (i + b) + b - 1"
  have "n - i + b - 1 = m + b" unfolding m_def using True assms by arith
  then show ?thesis using div_plus_self[OF assms(1), of m] unfolding m_def by simp
next
  case False
  have 1: "n - (i + b) + b - 1 = b - 1" using False by arith
  have lo: "b * 1 \<le> n - i + b - 1" using assms by arith
  have hi: "n - i + b - 1 < b * Suc 1" using False assms by arith
  have "(n - i + b - 1) div b = 1" using lo hi by (rule div_nat_eqI)
  moreover have "(b - 1) div b = 0" using assms(1) by simp
  ultimately show ?thesis unfolding 1 by simp
qed

lemma length_strideFrom:
  "0 < b \<Longrightarrow> length (strideFrom i n b) = (n - i + b - 1) div b"
proof (induction i n b rule: strideFrom.induct)
  case (1 i n b)
  show ?case
  proof (cases "i < n")
    case True
    with 1 have "length (strideFrom (i + b) n b) = (n - (i + b) + b - 1) div b" by simp
    then have "length (strideFrom i n b) = Suc ((n - (i + b) + b - 1) div b)"
      using True 1(2) by (simp add: strideFrom_step)
    also have "\<dots> = (n - i + b - 1) div b"
      using div_step[OF 1(2) True] by simp
    finally show ?thesis .
  next
    case False
    with 1(2) show ?thesis by (simp add: strideFrom_stop)
  qed
qed

lemma nth_strideFrom:
  "0 < b \<Longrightarrow> k < length (strideFrom i n b) \<Longrightarrow> strideFrom i n b ! k = i + k * b"
proof (induction i n b arbitrary: k rule: strideFrom.induct)
  case (1 i n b)
  show ?case
  proof (cases "i < n")
    case True
    with 1 show ?thesis by (cases k) (simp_all add: strideFrom_step)
  next
    case False
    with 1(3) show ?thesis by (simp add: strideFrom_stop)
  qed
qed

lemma concat_chunks:
  "0 < b \<Longrightarrow> n = length xs \<Longrightarrow>
     concat (map (\<lambda>j. take (min (j + b) (length xs) - j) (drop j xs)) (strideFrom i n b)) = drop i xs"
proof (induction i n b rule: strideFrom.induct)
  case (1 i n b)
  show ?case
  proof (cases "i < n")
    case True
    have "take (min (i + b) (length xs) - i) (drop i xs) @ drop (i + b) xs = drop i xs"
    proof (cases "i + b \<le> length xs")
      case True
      then have "min (i + b) (length xs) - i = b" by simp
      then show ?thesis
        by (metis add.commute append_take_drop_id drop_drop)
    next
      case False
      then show ?thesis by simp
    qed
    with True 1 show ?thesis by (simp add: strideFrom_step)
  next
    case False
    with 1(3) show ?thesis by (simp add: strideFrom_stop)
  qed
qed

lemma chunk_length:
  assumes "0 < (b::nat)" "k < (n + b - 1) div b"
  shows "min (k * b + b) n - k * b = (if k < n div b then b else n mod b)"
proof (cases "k < n div b")
  case True
  then have "Suc k \<le> n div b" by simp
  then have "Suc k * b \<le> n div b * b" by (rule mult_le_mono1)
  also have "\<dots> \<le> n" by simp
  finally have "k * b + b \<le> n" by (simp add: add.commute)
  with True show ?thesis by simp
next
  case False
  have "(n + b - 1) div b \<le> Suc (n div b)"
  proof -
    have "n + b - 1 < n + b" using assms(1) by simp
    then have "(n + b - 1) div b \<le> (n + b) div b" by (simp add: div_le_mono)
    also have "\<dots> = Suc (n div b)" using assms(1) by simp
    finally show ?thesis .
  qed
  with False assms(2) have k: "k = n div b" by simp
  have "n < k * b + b"
    unfolding k using assms(1)
    by (metis add.commute dividend_less_div_times mult.commute)
  then have "min (k * b + b) n - k * b = n - k * b" by simp
  also have "\<dots> = n mod b" unfolding k by (simp add: minus_div_mult_eq_mod)
  finally show ?thesis using False by simp
qed

section \<open>Properties of the batch assembler\<close>

lemma queueBatch_frame:
  "syncManagerSet (queueBatch env cfg b s) = syncManagerSet s"
  "typeStatuses (queueBatch env cfg b s) = typeStatuses s"
  "anchoredQueries (queueBatch env cfg b s) = anchoredQueries s"
  "defaults (queueBatch env cfg b s) (anchorKey ty) = defaults s (anchorKey ty)"
proof -
  let ?s2 = "s\<lparr>uploadQueue := uploadQueue s @ [b], pendingBatches := Suc (length (uploadQueue s))\<rparr>"
  have q: "queueBatch env cfg b s = (if isProcessingQueue s then ?s2 else processQueue env cfg ?s2)"
    by (simp add: queueBatch_def Let_def)
  have p: "\<not> isProcessingQueue s \<Longrightarrow> \<not> isProcessingQueue ?s2" by simp
  show "syncManagerSet (queueBatch env cfg b s) = syncManagerSet s"
    using processQueue_spec(6)[OF p] by (simp add: q)
  show "typeStatuses (queueBatch env cfg b s) = typeStatuses s"
    using processQueue_spec(7)[OF p] by (simp add: q)
  show "anchoredQueries (queueBatch env cfg b s) = anchoredQueries s"
    using processQueue_spec(8)[OF p] by (simp add: q)
  show "defaults (queueBatch env cfg b s) (anchorKey ty) = defaults s (anchorKey ty)"
    using processQueue_spec(9)[OF p, of env cfg ty] by (simp add: q)
qed

lemma foldl_queue_frame:
  assumes "queues_one env cfg f R"
  shows "syncManagerSet (foldl f s idx) = syncManagerSet s \<and>
         typeStatuses (foldl f s idx) = typeStatuses s \<and>
         anchoredQueries (foldl f s idx) = anchoredQueries s \<and>
         defaults (foldl f s idx) (anchorKey ty) = defaults s (anchorKey ty)"
proof (induction idx arbitrary: s)
  case Nil
  then show ?case by simp
next
  case (Cons i idx)
  from assms obtain b where b: "f s i = queueBatch env cfg b (s\<lparr>clockReads := Suc (clockReads s)\<rparr>)"
    unfolding queues_one_def by blast
  show ?case
    using Cons.IH[of "f s i"] by (simp add: b queueBatch_frame)
qed

lemma foldl_queue_idle:
  assumes "queues_one env cfg f R"
  shows "idle s \<Longrightarrow>
         idle (foldl f s idx) \<and>
         (\<exists>batches. uploads (foldl f s idx) = uploads s @ filter (sendable env cfg) batches \<and>
            list_all2 R idx batches)"
proof (induction idx arbitrary: s)
  case Nil
  then show ?case by simp
next
  case (Cons i idx)
  let ?s0 = "s\<lparr>clockReads := Suc (clockReads s)\<rparr>"
  from assms obtain b where b: "f s i = queueBatch env cfg b ?s0" "R i b"
    unfolding queues_one_def by blast
  have i0: "idle ?s0" using Cons.prems by (simp add: idle_def)
  note q = queueBatch_idle[OF i0, of env cfg b]
  from Cons.IH[OF q(1)] obtain batches where
    bs: "uploads (foldl f (f s i) idx) = uploads (f s i) @ filter (sendable env cfg) batches"
      "list_all2 R idx batches" and idl: "idle (foldl f (f s i) idx)"
    unfolding b(1) by blast
  have "uploads (foldl f s (i # idx)) = uploads s @ filter (sendable env cfg) (b # batches)"
    using bs(1) by (simp add: b(1) q(2))
  moreover have "list_all2 R (i # idx) (b # batches)" using bs(2) b(2) by simp
  ultimately show ?case using idl by (simp del: filter.simps) blast
qed

lemma queueRecordsChunk_queues_one:
  "queues_one env cfg (queueRecordsChunk env cfg ty rs deleted)
     (\<lambda>i b. dataType b = rawValue ty \<and> records b = Some (records_chunk cfg rs i) \<and>
            workouts b = None \<and> deletedUUIDs b = (if i = 0 then deleted else []))"
  unfolding queues_one_def
proof (intro allI)
  fix s i
  show "\<exists>b. queueRecordsChunk env cfg ty rs deleted s i =
          queueBatch env cfg b (s\<lparr>clockReads := Suc (clockReads s)\<rparr>) \<and>
          dataType b = rawValue ty \<and> records b = Some (records_chunk cfg rs i) \<and>
          workouts b = None \<and> deletedUUIDs b = (if i = 0 then deleted else [])"
    by (rule exI[of _ "\<lparr> dataType = rawValue ty, records = Some (records_chunk cfg rs i),
              workouts = None, deletedUUIDs = (if i = 0 then deleted else []),
              deviceId = cfgDeviceId cfg, timestamp = Date_now env (clockReads s) \<rparr>"])
       (simp add: queueRecordsChunk_def Date_init_def Let_def records_chunk_def)
qed

lemma queueWorkoutsChunk_queues_one:
  "queues_one env cfg (queueWorkoutsChunk env cfg ty ws deleted)
     (\<lambda>i b. dataType b = rawValue ty \<and> workouts b = Some (records_chunk cfg ws i) \<and>
            records b = None \<and> deletedUUIDs b = (if i = 0 then deleted else []))"
  unfolding queues_one_def
proof (intro allI)
  fix s i
  show "\<exists>b. queueWorkoutsChunk env cfg ty ws deleted s i =
          queueBatch env cfg b (s\<lparr>clockReads := Suc (clockReads s)\<rparr>) \<and>
          dataType b = rawValue ty \<and> workouts b = Some (records_chunk cfg ws i) \<and>
          records b = None \<and> deletedUUIDs b = (if i = 0 then deleted else [])"
    by (rule exI[of _ "\<lparr> dataType = rawValue ty, records = None,
              workouts = Some (records_chunk cfg ws i), deletedUUIDs = (if i = 0 then deleted else []),
              deviceId = cfgDeviceId cfg, timestamp = Date_now env (clockReads s) \<rparr>"])
       (simp add: queueWorkoutsChunk_def Date_init_def Let_def records_chunk_def)
qed

lemma syncData_total:
  "0 < batchSize cfg \<Longrightarrow> \<exists>s'. syncData env cfg ty samples deleted s = Some s'"
  by (simp add: syncData_def stride_from_to_by_def Let_def split: prod.splits)

lemma syncData_frame:
  assumes "syncData env cfg ty samples deleted s = Some s'"
  shows "syncManagerSet s' = syncManagerSet s \<and>
         typeStatuses s' = typeStatuses s \<and>
         anchoredQueries s' = anchoredQueries s \<and>
         defaults s' (anchorKey ty') = defaults s (anchorKey ty')"
  using assms
    foldl_queue_frame[OF queueRecordsChunk_queues_one, of env cfg ty "allRecords env ty samples" deleted s _ ty']
    foldl_queue_frame[OF queueWorkoutsChunk_queues_one, of env cfg ty "allWorkouts ty samples" deleted s _ ty']
  by (auto simp: syncData_def stride_from_to_by_def Let_def Date_init_def queueBatch_frame
           split: if_splits prod.splits)


lemma chunks_facts:
  fixes proj :: "'b \<Rightarrow> 'a list option" and del :: "'b \<Rightarrow> string list"
  assumes B: "0 < batchSize cfg"
    and all2: "list_all2 (\<lambda>i b. proj b = Some (records_chunk cfg xs i) \<and>
                 del b = (if i = 0 then deleted else []))
               (strideFrom 0 (length xs) (batchSize cfg)) batches"
  shows "length batches = (length xs + batchSize cfg - 1) div batchSize cfg"
    and "concat (map (\<lambda>b. the_list (proj b)) batches) = xs"
    and "\<forall>k<length batches.
           proj (batches ! k) \<noteq> None \<and>
           length (the_list (proj (batches ! k))) =
             (if k < length xs div batchSize cfg then batchSize cfg else length xs mod batchSize cfg) \<and>
           del (batches ! k) = (if k = 0 then deleted else [])"
proof -
  let ?B = "batchSize cfg"
  let ?idx = "strideFrom 0 (length xs) ?B"
  have len: "length batches = length ?idx" using all2 by (simp add: list_all2_lengthD)
  then show L: "length batches = (length xs + ?B - 1) div ?B"
    using length_strideFrom[OF B, of 0 "length xs"] by simp
  have "map (\<lambda>b. the_list (proj b)) batches = map (records_chunk cfg xs) ?idx"
  proof (rule nth_equalityI)
    show "length (map (\<lambda>b. the_list (proj b)) batches) = length (map (records_chunk cfg xs) ?idx)"
      using len by simp
  next
    fix k assume "k < length (map (\<lambda>b. the_list (proj b)) batches)"
    then have k: "k < length ?idx" using len by simp
    from list_all2_nthD[OF all2 k] show
      "map (\<lambda>b. the_list (proj b)) batches ! k = map (records_chunk cfg xs) ?idx ! k"
      using k len by (simp add: the_list_def)
  qed
  then have "concat (map (\<lambda>b. the_list (proj b)) batches) =
      concat (map (\<lambda>j. take (min (j + ?B) (length xs) - j) (drop j xs)) ?idx)"
    by (simp add: records_chunk_def[abs_def])
  also have "\<dots> = drop 0 xs" using concat_chunks[OF B refl, of xs 0] .
  finally show "concat (map (\<lambda>b. the_list (proj b)) batches) = xs" by simp
  show "\<forall>k<length batches.
           proj (batches ! k) \<noteq> None \<and>
           length (the_list (proj (batches ! k))) =
             (if k < length xs div ?B then ?B else length xs mod ?B) \<and>
           del (batches ! k) = (if k = 0 then deleted else [])"
  proof (intro allI impI)
    fix k assume kb: "k < length batches"
    then have k: "k < length ?idx" using len by simp
    have nth: "?idx ! k = k * ?B" using nth_strideFrom[OF B k] by simp
    from list_all2_nthD[OF all2 k] have
      p: "proj (batches ! k) = Some (records_chunk cfg xs (k * ?B))" and
      d: "del (batches ! k) = (if k * ?B = 0 then deleted else [])"
      unfolding nth by simp_all
    have kk: "k < (length xs + ?B - 1) div ?B" using kb L by simp
    have cl: "min (k * ?B + ?B) (length xs) - k * ?B =
        (if k < length xs div ?B then ?B else length xs mod ?B)"
      using chunk_length[OF B kk] .
    have "length (records_chunk cfg xs (k * ?B)) =
        min (length xs - k * ?B) (min (k * ?B + ?B) (length xs) - k * ?B)"
      by (simp add: records_chunk_def)
    also have "\<dots> = min (k * ?B + ?B) (length xs) - k * ?B" by simp
    finally have "length (records_chunk cfg xs (k * ?B)) =
        (if k < length xs div ?B then ?B else length xs mod ?B)" using cl by simp
    then show "proj (batches ! k) \<noteq> None \<and>
           length (the_list (proj (batches ! k))) =
             (if k < length xs div ?B then ?B else length xs mod ?B) \<and>
           del (batches ! k) = (if k = 0 then deleted else [])"
      using p d B by (simp add: the_list_def)
  qed
qed

lemma filter_allSendable: "allSendable env cfg \<Longrightarrow> filter (sendable env cfg) bs = bs"
  by (simp add: allSendable_def sendable_def)


text \<open>
  C7 (as amended). From a sync manager at rest, on a platform where every request can be
  built, and with a batch size \<open>B > 0\<close>, \<^verbatim>\<open>syncData\<close> returns and sends exactly the
  batches it assembles, in order. For \<open>n \<ge> 1\<close> records (or, when there are no records,
  \<open>n \<ge> 1\<close> workouts) these are \<open>\<lceil>n / B\<rceil>\<close> batches, whose chunks concatenate to
  the sequence, each of size \<open>B\<close> except a last one of \<open>n mod B\<close> when \<open>B\<close> does not
  divide \<open>n\<close>; each batch holds only records or only workouts; the deletion identifiers
  are on the first batch and every later batch has none. For \<open>n = 0\<close> the assembler sends
  one batch with neither records nor workouts that carries the deletion identifiers when
  there are any, and nothing otherwise.
\<close>

theorem batch_assembly:
  assumes "idle s" and "syncManagerSet s" and "allSendable env cfg" and "0 < batchSize cfg"
  shows "\<exists>s' sent. syncData env cfg ty samples deleted s = Some s' \<and> uploads s' = uploads s @ sent \<and>
     (let rs = allRecords env ty samples; ws = allWorkouts ty samples; B = batchSize cfg in
        (rs \<noteq> [] \<longrightarrow>
           length sent = (length rs + B - 1) div B \<and>
           concat (map (\<lambda>b. the_list (records b)) sent) = rs \<and>
           (\<forall>k<length sent.
              records (sent ! k) \<noteq> None \<and> workouts (sent ! k) = None \<and>
              length (the_list (records (sent ! k))) = (if k < length rs div B then B else length rs mod B) \<and>
              deletedUUIDs (sent ! k) = (if k = 0 then deleted else []))) \<and>
        (rs = [] \<and> ws \<noteq> [] \<longrightarrow>
           length sent = (length ws + B - 1) div B \<and>
           concat (map (\<lambda>b. the_list (workouts b)) sent) = ws \<and>
           (\<forall>k<length sent.
              workouts (sent ! k) \<noteq> None \<and> records (sent ! k) = None \<and>
              length (the_list (workouts (sent ! k))) = (if k < length ws div B then B else length ws mod B) \<and>
              deletedUUIDs (sent ! k) = (if k = 0 then deleted else []))) \<and>
        (rs = [] \<and> ws = [] \<and> deleted \<noteq> [] \<longrightarrow>
           length sent = 1 \<and> records (sent ! 0) = None \<and> workouts (sent ! 0) = None \<and>
           deletedUUIDs (sent ! 0) = deleted) \<and>
        (rs = [] \<and> ws = [] \<and> deleted = [] \<longrightarrow> sent = []))"
proof -
  let ?rs = "allRecords env ty samples"
  let ?ws = "allWorkouts ty samples"
  let ?B = "batchSize cfg"
  consider (recs) "?rs \<noteq> []" | (wos) "?rs = []" "?ws \<noteq> []"
    | (dels) "?rs = []" "?ws = []" "deleted \<noteq> []" | (none) "?rs = []" "?ws = []" "deleted = []"
    by blast
  then show ?thesis
  proof cases
    case recs
    let ?f = "queueRecordsChunk env cfg ty ?rs deleted"
    let ?idx = "strideFrom 0 (length ?rs) ?B"
    have sd: "syncData env cfg ty samples deleted s = Some (foldl ?f s ?idx)"
      using recs assms(2,4) by (simp add: syncData_def stride_from_to_by_def Let_def)
    from foldl_queue_idle[OF queueRecordsChunk_queues_one assms(1), of env cfg ty ?rs deleted ?idx]
    obtain batches where
      up: "uploads (foldl ?f s ?idx) = uploads s @ filter (sendable env cfg) batches" and
      all2: "list_all2 (\<lambda>i b. dataType b = rawValue ty \<and> records b = Some (records_chunk cfg ?rs i) \<and>
            workouts b = None \<and> deletedUUIDs b = (if i = 0 then deleted else [])) ?idx batches"
      by blast
    have all2': "list_all2 (\<lambda>i b. records b = Some (records_chunk cfg ?rs i) \<and>
            deletedUUIDs b = (if i = 0 then deleted else [])) ?idx batches"
      using all2 by (rule list_all2_mono) simp
    note cf = chunks_facts[OF assms(4) all2']
    have wn: "\<forall>k<length batches. workouts (batches ! k) = None"
      using all2 by (auto simp: list_all2_conv_all_nth)
    have "uploads (foldl ?f s ?idx) = uploads s @ batches"
      using up by (simp add: filter_allSendable[OF assms(3)])
    with sd cf wn recs show ?thesis
      by (intro exI[of _ "foldl ?f s ?idx"] exI[of _ batches]) (simp add: Let_def)
  next
    case wos
    let ?f = "queueWorkoutsChunk env cfg ty ?ws deleted"
    let ?idx = "strideFrom 0 (length ?ws) ?B"
    have sd: "syncData env cfg ty samples deleted s = Some (foldl ?f s ?idx)"
      using wos assms(2,4) by (simp add: syncData_def stride_from_to_by_def Let_def)
    from foldl_queue_idle[OF queueWorkoutsChunk_queues_one assms(1), of env cfg ty ?ws deleted ?idx]
    obtain batches where
      up: "uploads (foldl ?f s ?idx) = uploads s @ filter (sendable env cfg) batches" and
      all2: "list_all2 (\<lambda>i b. dataType b = rawValue ty \<and> workouts b = Some (records_chunk cfg ?ws i) \<and>
            records b = None \<and> deletedUUIDs b = (if i = 0 then deleted else [])) ?idx batches"
      by blast
    have all2': "list_all2 (\<lambda>i b. workouts b = Some (records_chunk cfg ?ws i) \<and>
            deletedUUIDs b = (if i = 0 then deleted else [])) ?idx batches"
      using all2 by (rule list_all2_mono) simp
    note cf = chunks_facts[OF assms(4) all2']
    have wn: "\<forall>k<length batches. records (batches ! k) = None"
      using all2 by (auto simp: list_all2_conv_all_nth)
    have "uploads (foldl ?f s ?idx) = uploads s @ batches"
      using up by (simp add: filter_allSendable[OF assms(3)])
    with sd cf wn wos show ?thesis
      by (intro exI[of _ "foldl ?f s ?idx"] exI[of _ batches]) (simp add: Let_def)
  next
    case dels
    let ?s0 = "s\<lparr>clockReads := Suc (clockReads s)\<rparr>"
    let ?b = "\<lparr> dataType = rawValue ty, records = None, workouts = None,
                deletedUUIDs = deleted, deviceId = cfgDeviceId cfg,
                timestamp = Date_now env (clockReads s) \<rparr>"
    have sd: "syncData env cfg ty samples deleted s = Some (queueBatch env cfg ?b ?s0)"
      using dels assms(2) by (simp add: syncData_def Let_def Date_init_def)
    have i0: "idle ?s0" using assms(1) by (simp add: idle_def)
    have sb: "sendable env cfg ?b" using assms(3) by (simp add: allSendable_def sendable_def)
    have "uploads (queueBatch env cfg ?b ?s0) = uploads s @ [?b]"
      using queueBatch_idle(2)[OF i0, of env cfg ?b] sb by simp
    with sd dels show ?thesis
      by (intro exI[of _ "queueBatch env cfg ?b ?s0"] exI[of _ "[?b]"]) (simp add: Let_def)
  next
    case none
    then have "syncData env cfg ty samples deleted s = Some s"
      using assms(2) by (simp add: syncData_def Let_def)
    with none show ?thesis by (intro exI[of _ s] exI[of _ "[]"]) (simp add: Let_def)
  qed
qed

section \<open>Properties of the delta fetch\<close>

lemma hkSampleType_Some: "\<exists>st. hkSampleType ty = Some st"
  by (cases ty) simp_all

lemma fetchPredicate_frame:
  "defaults (snd (fetchPredicate env cfg a s)) = defaults s"
  "uploads (snd (fetchPredicate env cfg a s)) = uploads s"
  "anchoredQueries (snd (fetchPredicate env cfg a s)) = anchoredQueries s"
  "idle (snd (fetchPredicate env cfg a s)) = idle s"
  by (simp_all add: fetchPredicate_def Date_init_def idle_def split: option.splits)

lemma setStatusError_frame:
  "defaults (setStatusError ty e s) = defaults s"
  "uploads (setStatusError ty e s) = uploads s"
  "anchoredQueries (setStatusError ty e s) = anchoredQueries s"
  by (simp_all add: setStatusError_def split: option.splits)

lemma setAnchor_frame:
  "uploads (setAnchor env a ty s) = uploads s"
  "anchoredQueries (setAnchor env a ty s) = anchoredQueries s"
  by (simp_all add: setAnchor_def split: option.splits)

text \<open>\<^verbatim>\<open>fetchAndSync\<close> in three steps: the query, the hand-over to \<^verbatim>\<open>syncData\<close>,
  and the write of the anchor.\<close>

lemma performAnchoredQuery_eq:
  "performAnchoredQuery env st a p s =
     ((case qError (HKAnchoredObjectQuery env st p a) of
         Some e \<Rightarrow> Inl e
       | None \<Rightarrow> Inr (the_list (qSamples (HKAnchoredObjectQuery env st p a)),
                      the_list (qDeletedObjects (HKAnchoredObjectQuery env st p a)),
                      qNewAnchor (HKAnchoredObjectQuery env st p a))),
      s\<lparr>anchoredQueries := anchoredQueries s @ [(st, a, p)]\<rparr>)"
  by (simp add: performAnchoredQuery_def Let_def split: option.splits)

lemma fetchAndSync_shape:
  assumes st: "hkSampleType ty = Some st" and B: "0 < batchSize cfg"
  shows "(\<exists>e. qError (anchoredResult env cfg ty s st) = Some e \<and>
            fetchAndSync env cfg ty s = Some (setStatusError ty (Some e) (queried env cfg ty s st))) \<or>
         (qError (anchoredResult env cfg ty s st) = None \<and>
          (\<exists>s3. (if the_list (qSamples (anchoredResult env cfg ty s st)) \<noteq> [] \<or>
                    the_list (qDeletedObjects (anchoredResult env cfg ty s st)) \<noteq> []
                 then syncData env cfg ty (the_list (qSamples (anchoredResult env cfg ty s st)))
                        (the_list (qDeletedObjects (anchoredResult env cfg ty s st)))
                        (queried env cfg ty s st)
                 else Some (queried env cfg ty s st)) = Some s3 \<and>
             fetchAndSync env cfg ty s =
               Some (setStatusError ty None
                 (case qNewAnchor (anchoredResult env cfg ty s st) of
                    Some a \<Rightarrow> setAnchor env (Some a) ty s3 | None \<Rightarrow> s3))))"
proof -
  let ?r = "anchoredResult env cfg ty s st"
  let ?s2 = "queried env cfg ty s st"
  show ?thesis
  proof (cases "qError ?r")
    case (Some e)
    then show ?thesis
      using st unfolding anchoredResult_def queried_def
      by (simp add: fetchAndSync_def performAnchoredQuery_eq Let_def fetchPredicate_frame
               split_beta)
  next
    case None
    obtain s3 where s3: "(if the_list (qSamples ?r) \<noteq> [] \<or> the_list (qDeletedObjects ?r) \<noteq> []
                   then syncData env cfg ty (the_list (qSamples ?r)) (the_list (qDeletedObjects ?r)) ?s2
                   else Some ?s2) = Some s3"
      using syncData_total[OF B, of env ty "the_list (qSamples ?r)" "the_list (qDeletedObjects ?r)" ?s2]
      by (cases "the_list (qSamples ?r) \<noteq> [] \<or> the_list (qDeletedObjects ?r) \<noteq> []") auto
    have "fetchAndSync env cfg ty s =
                 Some (setStatusError ty None
                   (case qNewAnchor ?r of Some a \<Rightarrow> setAnchor env (Some a) ty s3 | None \<Rightarrow> s3))"
      using st None s3 unfolding anchoredResult_def queried_def
      by (cases "the_list (qSamples ?r) \<noteq> [] \<or> the_list (qDeletedObjects ?r) \<noteq> []")
         (simp_all add: fetchAndSync_def performAnchoredQuery_eq Let_def fetchPredicate_frame
               split_beta anchoredResult_def)
    with None s3 show ?thesis by blast
  qed
qed

lemma anchor_after_fetch:
  assumes B: "0 < batchSize cfg" and st: "hkSampleType ty = Some st"
  shows "\<exists>s'. fetchAndSync env cfg ty s = Some s' \<and>
      defaults s' (anchorKey ty) =
        (case qError (anchoredResult env cfg ty s st) of
           Some e \<Rightarrow> defaults s (anchorKey ty)
         | None \<Rightarrow>
             (case qNewAnchor (anchoredResult env cfg ty s st) of
                None \<Rightarrow> defaults s (anchorKey ty)
              | Some a \<Rightarrow>
                  (case archivedData env a of
                     None \<Rightarrow> defaults s (anchorKey ty)
                   | Some d \<Rightarrow> Some (UDData d))))"
proof -
  let ?r = "anchoredResult env cfg ty s st"
  let ?s2 = "queried env cfg ty s st"
  have d2: "defaults ?s2 = defaults s" by (simp add: queried_def fetchPredicate_frame)
  from fetchAndSync_shape[OF st B, of env s]
  consider (err) e where "qError ?r = Some e"
      "fetchAndSync env cfg ty s = Some (setStatusError ty (Some e) ?s2)"
    | (ok) s3 where "qError ?r = None"
      "(if the_list (qSamples ?r) \<noteq> [] \<or> the_list (qDeletedObjects ?r) \<noteq> []
        then syncData env cfg ty (the_list (qSamples ?r)) (the_list (qDeletedObjects ?r)) ?s2
        else Some ?s2) = Some s3"
      "fetchAndSync env cfg ty s =
         Some (setStatusError ty None
           (case qNewAnchor ?r of Some a \<Rightarrow> setAnchor env (Some a) ty s3 | None \<Rightarrow> s3))"
    by blast
  then show ?thesis
  proof cases
    case err
    then show ?thesis by (simp add: setStatusError_frame d2)
  next
    case ok
    have d3: "defaults s3 (anchorKey ty) = defaults s (anchorKey ty)"
      using ok(2) syncData_frame[of env cfg ty _ _ ?s2 s3 ty] d2
      by (auto split: if_splits)
    show ?thesis
      using ok(1,3) d3
      by (simp add: setStatusError_frame setAnchor_def anchorKey_def split: option.splits)
  qed
qed

lemma anchoredResult_URLSession:
  "anchoredResult (env\<lparr>URLSession_data := h\<rparr>) cfg ty s st = anchoredResult env cfg ty s st"
  by (simp add: anchoredResult_def fetchPredicate_def getAnchor_def Date_init_def
           split: option.splits UDValue.splits)

text \<open>
  C1 (as amended). The cursor that is persisted after a sync attempt follows the fetch, not
  the uploads: \<^verbatim>\<open>fetchAndSync\<close> returns, and afterwards the stored anchor of the
  stream is the one before the attempt when the anchored query fails (or returns no new
  anchor, or the anchor cannot be archived), and is the new anchor of the fetch when the
  query succeeds. The stored anchor is the same whatever the uploads of the batches do,
  fail or succeed.
\<close>

theorem cursor_follows_fetch:
  assumes "0 < batchSize cfg"
  shows "\<exists>s' st. fetchAndSync env cfg ty s = Some s' \<and> hkSampleType ty = Some st \<and>
      defaults s' (anchorKey ty) =
        (case qError (anchoredResult env cfg ty s st) of
           Some e \<Rightarrow> defaults s (anchorKey ty)
         | None \<Rightarrow>
             (case qNewAnchor (anchoredResult env cfg ty s st) of
                None \<Rightarrow> defaults s (anchorKey ty)
              | Some a \<Rightarrow>
                  (case archivedData env a of
                     None \<Rightarrow> defaults s (anchorKey ty)
                   | Some d \<Rightarrow> Some (UDData d)))) \<and>
      (\<forall>h. \<exists>s''. fetchAndSync (env\<lparr>URLSession_data := h\<rparr>) cfg ty s = Some s'' \<and>
             defaults s'' (anchorKey ty) = defaults s' (anchorKey ty))"
proof -
  obtain st where st: "hkSampleType ty = Some st" using hkSampleType_Some by blast
  from anchor_after_fetch[OF assms st, of env s] obtain s' where
    s': "fetchAndSync env cfg ty s = Some s'" and
    d: "defaults s' (anchorKey ty) =
        (case qError (anchoredResult env cfg ty s st) of
           Some e \<Rightarrow> defaults s (anchorKey ty)
         | None \<Rightarrow>
             (case qNewAnchor (anchoredResult env cfg ty s st) of
                None \<Rightarrow> defaults s (anchorKey ty)
              | Some a \<Rightarrow>
                  (case archivedData env a of
                     None \<Rightarrow> defaults s (anchorKey ty)
                   | Some d \<Rightarrow> Some (UDData d))))"
    by blast
  have "\<exists>s''. fetchAndSync (env\<lparr>URLSession_data := h\<rparr>) cfg ty s = Some s'' \<and>
             defaults s'' (anchorKey ty) = defaults s' (anchorKey ty)" for h
    using anchor_after_fetch[OF assms st, of "env\<lparr>URLSession_data := h\<rparr>" s] d
    by (simp add: anchoredResult_URLSession cong: option.case_cong)
  with s' st d show ?thesis by blast
qed

lemma set_map_filter_iff:
  "y \<in> set (List.map_filter f xs) \<longleftrightarrow> (\<exists>x\<in>set xs. f x = Some y)"
  by (induction xs) (auto simp: List.map_filter_simps split: option.splits)

lemma allRecords_startTime:
  assumes "r \<in> set (allRecords env ty samples)"
  shows "\<exists>x\<in>set samples. startTime r = startDate (sampleBase x)"
proof -
  have q: "\<And>x. quantityPayload x = Some r \<Longrightarrow> startTime r = startDate (sampleBase x)"
    by (case_tac x) (auto simp: quantity_toPayload_def)
  have c: "\<And>x. categoryPayload env x = Some r \<Longrightarrow> startTime r = startDate (sampleBase x)"
    by (case_tac x) (auto simp: category_toPayload_def)
  from assms show ?thesis
    by (cases ty) (auto simp: set_map_filter_iff dest: q c)
qed

lemma allWorkouts_startTime:
  assumes "w \<in> set (allWorkouts ty samples)"
  shows "\<exists>x\<in>set samples. wStartTime w = startDate (sampleBase x)"
proof -
  have q: "\<And>x. workoutPayload x = Some w \<Longrightarrow> wStartTime w = startDate (sampleBase x)"
    by (case_tac x) (auto simp: workout_toPayload_def split: if_splits)
  from assms show ?thesis
    by (cases ty) (auto simp: set_map_filter_iff dest: q)
qed

lemma set_records_chunk: "set (records_chunk cfg xs i) \<subseteq> set xs"
  unfolding records_chunk_def
  by (meson set_take_subset set_drop_subset subset_trans)

lemma list_all2_in_set:
  "list_all2 R xs ys \<Longrightarrow> y \<in> set ys \<Longrightarrow> \<exists>x. R x y"
  by (auto simp: list_all2_conv_all_nth in_set_conv_nth)

lemma syncData_uploads_from:
  assumes "idle s" and "syncData env cfg ty samples deleted s = Some s'"
  shows "\<exists>sent. uploads s' = uploads s @ sent \<and>
           (\<forall>b\<in>set sent. set (the_list (records b)) \<subseteq> set (allRecords env ty samples) \<and>
                          set (the_list (workouts b)) \<subseteq> set (allWorkouts ty samples))"
proof -
  let ?rs = "allRecords env ty samples"
  let ?ws = "allWorkouts ty samples"
  consider (unset) "\<not> syncManagerSet s"
    | (recs) "syncManagerSet s" "?rs \<noteq> []"
    | (wos) "syncManagerSet s" "?rs = []" "?ws \<noteq> []"
    | (dels) "syncManagerSet s" "?rs = []" "?ws = []" "deleted \<noteq> []"
    | (none) "syncManagerSet s" "?rs = []" "?ws = []" "deleted = []"
    by blast
  then show ?thesis
  proof cases
    case unset
    with assms(2) have "s' = s" by (simp add: syncData_def)
    then show ?thesis by simp
  next
    case recs
    let ?f = "queueRecordsChunk env cfg ty ?rs deleted"
    from assms(2) recs obtain idx where sd: "s' = foldl ?f s idx"
      by (auto simp: syncData_def Let_def split: option.splits)
    from foldl_queue_idle[OF queueRecordsChunk_queues_one assms(1), of env cfg ty ?rs deleted idx]
    obtain batches where
      up: "uploads (foldl ?f s idx) = uploads s @ filter (sendable env cfg) batches" and
      all2: "list_all2 (\<lambda>i b. dataType b = rawValue ty \<and> records b = Some (records_chunk cfg ?rs i) \<and>
            workouts b = None \<and> deletedUUIDs b = (if i = 0 then deleted else [])) idx batches"
      by blast
    have "\<forall>b\<in>set (filter (sendable env cfg) batches).
            set (the_list (records b)) \<subseteq> set ?rs \<and> set (the_list (workouts b)) \<subseteq> set ?ws"
    proof
      fix b assume "b \<in> set (filter (sendable env cfg) batches)"
      then have "b \<in> set batches" by simp
      from list_all2_in_set[OF all2 this] obtain i where
        "records b = Some (records_chunk cfg ?rs i)" "workouts b = None" by blast
      then show "set (the_list (records b)) \<subseteq> set ?rs \<and> set (the_list (workouts b)) \<subseteq> set ?ws"
        using set_records_chunk[of cfg ?rs i] by (simp add: the_list_def)
    qed
    with up sd show ?thesis by blast
  next
    case wos
    let ?f = "queueWorkoutsChunk env cfg ty ?ws deleted"
    from assms(2) wos obtain idx where sd: "s' = foldl ?f s idx"
      by (auto simp: syncData_def Let_def split: option.splits)
    from foldl_queue_idle[OF queueWorkoutsChunk_queues_one assms(1), of env cfg ty ?ws deleted idx]
    obtain batches where
      up: "uploads (foldl ?f s idx) = uploads s @ filter (sendable env cfg) batches" and
      all2: "list_all2 (\<lambda>i b. dataType b = rawValue ty \<and> workouts b = Some (records_chunk cfg ?ws i) \<and>
            records b = None \<and> deletedUUIDs b = (if i = 0 then deleted else [])) idx batches"
      by blast
    have "\<forall>b\<in>set (filter (sendable env cfg) batches).
            set (the_list (records b)) \<subseteq> set ?rs \<and> set (the_list (workouts b)) \<subseteq> set ?ws"
    proof
      fix b assume "b \<in> set (filter (sendable env cfg) batches)"
      then have "b \<in> set batches" by simp
      from list_all2_in_set[OF all2 this] obtain i where
        "workouts b = Some (records_chunk cfg ?ws i)" "records b = None" by blast
      then show "set (the_list (records b)) \<subseteq> set ?rs \<and> set (the_list (workouts b)) \<subseteq> set ?ws"
        using set_records_chunk[of cfg ?ws i] by (simp add: the_list_def)
    qed
    with up sd show ?thesis by blast
  next
    case dels
    let ?s0 = "s\<lparr>clockReads := Suc (clockReads s)\<rparr>"
    let ?b = "\<lparr> dataType = rawValue ty, records = None, workouts = None,
                deletedUUIDs = deleted, deviceId = cfgDeviceId cfg,
                timestamp = Date_now env (clockReads s) \<rparr>"
    have sd: "s' = queueBatch env cfg ?b ?s0"
      using dels assms(2) by (simp add: syncData_def Let_def Date_init_def)
    have i0: "idle ?s0" using assms(1) by (simp add: idle_def)
    have "uploads s' = uploads s @ (if sendable env cfg ?b then [?b] else [])"
      using queueBatch_idle(2)[OF i0, of env cfg ?b] sd by simp
    then show ?thesis
      by (intro exI[of _ "if sendable env cfg ?b then [?b] else []"]) (simp add: the_list_def)
  next
    case none
    with assms(2) have "s' = s" by (simp add: syncData_def Let_def)
    then show ?thesis by simp
  qed
qed

lemma queried_frame:
  "uploads (queried env cfg ty s st) = uploads s"
  "idle (queried env cfg ty s st) = idle s"
  "anchoredQueries (queried env cfg ty s st) =
     anchoredQueries s @ [(st, getAnchor env s ty, fst (fetchPredicate env cfg (getAnchor env s ty) s))]"
  using fetchPredicate_frame(4)[of env cfg "getAnchor env s ty" s]
  by (simp_all add: queried_def fetchPredicate_frame idle_def)

lemma fetchAndSync_effects:
  assumes B: "0 < batchSize cfg" and st: "hkSampleType ty = Some st"
  shows "\<exists>s'. fetchAndSync env cfg ty s = Some s' \<and>
      anchoredQueries s' =
        anchoredQueries s @ [(st, getAnchor env s ty, fst (fetchPredicate env cfg (getAnchor env s ty) s))] \<and>
      (idle s \<longrightarrow>
        (\<exists>sent. uploads s' = uploads s @ sent \<and>
           (\<forall>b\<in>set sent.
              set (the_list (records b)) \<subseteq>
                set (allRecords env ty (the_list (qSamples (anchoredResult env cfg ty s st)))) \<and>
              set (the_list (workouts b)) \<subseteq>
                set (allWorkouts ty (the_list (qSamples (anchoredResult env cfg ty s st)))))))"
proof -
  let ?r = "anchoredResult env cfg ty s st"
  let ?s2 = "queried env cfg ty s st"
  from fetchAndSync_shape[OF st B, of env s]
  consider (err) e where "qError ?r = Some e"
      "fetchAndSync env cfg ty s = Some (setStatusError ty (Some e) ?s2)"
    | (ok) s3 where "qError ?r = None"
      "(if the_list (qSamples ?r) \<noteq> [] \<or> the_list (qDeletedObjects ?r) \<noteq> []
        then syncData env cfg ty (the_list (qSamples ?r)) (the_list (qDeletedObjects ?r)) ?s2
        else Some ?s2) = Some s3"
      "fetchAndSync env cfg ty s =
         Some (setStatusError ty None
           (case qNewAnchor ?r of Some a \<Rightarrow> setAnchor env (Some a) ty s3 | None \<Rightarrow> s3))"
    by blast
  then show ?thesis
  proof cases
    case err
    then show ?thesis by (simp add: setStatusError_frame queried_frame)
  next
    case ok
    have aq: "anchoredQueries s3 = anchoredQueries ?s2"
      using ok(2) syncData_frame[of env cfg ty _ _ ?s2 s3 ty] by (auto split: if_splits)
    have up: "idle s \<longrightarrow>
        (\<exists>sent. uploads s3 = uploads s @ sent \<and>
           (\<forall>b\<in>set sent.
              set (the_list (records b)) \<subseteq> set (allRecords env ty (the_list (qSamples ?r))) \<and>
              set (the_list (workouts b)) \<subseteq> set (allWorkouts ty (the_list (qSamples ?r)))))"
    proof
      assume "idle s"
      then have i2: "idle ?s2" by (simp add: queried_frame)
      show "\<exists>sent. uploads s3 = uploads s @ sent \<and>
           (\<forall>b\<in>set sent.
              set (the_list (records b)) \<subseteq> set (allRecords env ty (the_list (qSamples ?r))) \<and>
              set (the_list (workouts b)) \<subseteq> set (allWorkouts ty (the_list (qSamples ?r))))"
      proof (cases "the_list (qSamples ?r) \<noteq> [] \<or> the_list (qDeletedObjects ?r) \<noteq> []")
        case True
        with ok(2) have "syncData env cfg ty (the_list (qSamples ?r)) (the_list (qDeletedObjects ?r)) ?s2 = Some s3"
          by simp
        from syncData_uploads_from[OF i2 this] show ?thesis by (simp add: queried_frame)
      next
        case False
        with ok(2) have "s3 = ?s2" by simp
        then show ?thesis by (simp add: queried_frame)
      qed
    qed
    have f: "fetchAndSync env cfg ty s =
         Some (setStatusError ty None
           (case qNewAnchor ?r of Some a \<Rightarrow> setAnchor env (Some a) ty s3 | None \<Rightarrow> s3))"
      by (rule ok(3))
    have u: "uploads (setStatusError ty None
           (case qNewAnchor ?r of Some a \<Rightarrow> setAnchor env (Some a) ty s3 | None \<Rightarrow> s3)) = uploads s3"
      "anchoredQueries (setStatusError ty None
           (case qNewAnchor ?r of Some a \<Rightarrow> setAnchor env (Some a) ty s3 | None \<Rightarrow> s3)) = anchoredQueries s3"
      by (simp_all add: setStatusError_frame setAnchor_frame split: option.splits)
    show ?thesis
      unfolding f using up aq by (simp add: u queried_frame)
  qed
qed

text \<open>
  C6. \<^verbatim>\<open>fetchAndSync\<close> executes exactly one anchored query. For a stream without a
  stored anchor the query carries the predicate "starts at or after the date the calendar
  gives for \<open>backfillDays\<close> days before now" (strict start date, no end date); then, from a
  sync manager at rest and with a health store that honours that start date, no record and
  no workout that the attempt uploads starts before it, whatever older samples the store
  holds. For a stream with a stored anchor the query carries that anchor and no predicate.
\<close>

theorem bounded_initial_fetch:
  assumes "0 < batchSize cfg"
  shows "\<exists>s' st. fetchAndSync env cfg ty s = Some s' \<and> hkSampleType ty = Some st \<and>
     (case getAnchor env s ty of
        None \<Rightarrow>
          anchoredQueries s' = anchoredQueries s @
            [(st, None,
              Some (predicateForSamples
                      (calendar_date_byAdding_day env (- int (backfillDays cfg)) (Date_now env (clockReads s)))
                      None strictStartDate))] \<and>
          (idle s \<and> honours_start env \<longrightarrow>
             (\<forall>t0. calendar_date_byAdding_day env (- int (backfillDays cfg)) (Date_now env (clockReads s)) = Some t0 \<longrightarrow>
                (\<forall>b\<in>set (drop (length (uploads s)) (uploads s')).
                   (\<forall>r\<in>set (the_list (records b)). t0 \<le> startTime r) \<and>
                   (\<forall>w\<in>set (the_list (workouts b)). t0 \<le> wStartTime w))))
      | Some a \<Rightarrow> anchoredQueries s' = anchoredQueries s @ [(st, Some a, None)])"
proof -
  obtain st where st: "hkSampleType ty = Some st" using hkSampleType_Some by blast
  let ?r = "anchoredResult env cfg ty s st"
  from fetchAndSync_effects[OF assms st, of env s] obtain s' where
    s': "fetchAndSync env cfg ty s = Some s'" and
    aq: "anchoredQueries s' =
        anchoredQueries s @ [(st, getAnchor env s ty, fst (fetchPredicate env cfg (getAnchor env s ty) s))]" and
    up: "idle s \<longrightarrow>
        (\<exists>sent. uploads s' = uploads s @ sent \<and>
           (\<forall>b\<in>set sent.
              set (the_list (records b)) \<subseteq> set (allRecords env ty (the_list (qSamples ?r))) \<and>
              set (the_list (workouts b)) \<subseteq> set (allWorkouts ty (the_list (qSamples ?r)))))"
    by blast
  show ?thesis
  proof (cases "getAnchor env s ty")
    case (Some a)
    then show ?thesis using s' st aq by (simp add: fetchPredicate_def)
  next
    case None
    let ?start = "calendar_date_byAdding_day env (- int (backfillDays cfg)) (Date_now env (clockReads s))"
    have p: "fst (fetchPredicate env cfg None s) = Some (predicateForSamples ?start None strictStartDate)"
      by (simp add: fetchPredicate_def Date_init_def)
    have bound: "\<forall>b\<in>set (drop (length (uploads s)) (uploads s')).
                   (\<forall>r\<in>set (the_list (records b)). t0 \<le> startTime r) \<and>
                   (\<forall>w\<in>set (the_list (workouts b)). t0 \<le> wStartTime w)"
      if i: "idle s" and h: "honours_start env" and t0: "?start = Some t0" for t0
    proof -
      from up i obtain sent where sent: "uploads s' = uploads s @ sent"
        "\<forall>b\<in>set sent.
              set (the_list (records b)) \<subseteq> set (allRecords env ty (the_list (qSamples ?r))) \<and>
              set (the_list (workouts b)) \<subseteq> set (allWorkouts ty (the_list (qSamples ?r)))"
        by blast
      have r: "?r = HKAnchoredObjectQuery env st (Some (predicateForSamples (Some t0) None strictStartDate)) None"
        using None p t0 by (simp add: anchoredResult_def)
      have smp: "\<forall>x\<in>set (the_list (qSamples ?r)). t0 \<le> startDate (sampleBase x)"
        using h unfolding r honours_start_def by blast
      show ?thesis
      proof (intro ballI conjI)
        fix b x assume b: "b \<in> set (drop (length (uploads s)) (uploads s'))"
          and x: "x \<in> set (the_list (records b))"
        from b sent(1) have "b \<in> set sent" by simp
        with sent(2) x have "x \<in> set (allRecords env ty (the_list (qSamples ?r)))" by blast
        from allRecords_startTime[OF this] smp show "t0 \<le> startTime x" by auto
      next
        fix b w assume b: "b \<in> set (drop (length (uploads s)) (uploads s'))"
          and w: "w \<in> set (the_list (workouts b))"
        from b sent(1) have "b \<in> set sent" by simp
        with sent(2) w have "w \<in> set (allWorkouts ty (the_list (qSamples ?r)))" by blast
        from allWorkouts_startTime[OF this] smp show "t0 \<le> wStartTime w" by auto
      qed
    qed
    show ?thesis
      using s' st aq None p bound by (intro exI[of _ s'] exI[of _ st]) simp
  qed
qed


section \<open>The engine run on the example phone\<close>

lemmas engine_eval =
  fetchAndSync_def fetchPredicate_def getAnchor_def setAnchor_def setStatusError_def
  performAnchoredQuery_def syncData_def stride_from_to_by_def queueRecordsChunk_def
  queueWorkoutsChunk_def queueBatch_def processQueue_def processBatch_def uploadBatch_def
  refreshMaterializedView_def Date_init_def setLastSyncTime_def HealthDataType_init_def
  allCases_def keyPrefix_def lastSyncKeyPrefix_def quantity_toPayload_def the_list_def
  List.map_filter_simps Let_def

lemma strideFrom_0_1: "strideFrom 0 (Suc 0) 1000 = [0]"
  by (simp add: strideFrom_step strideFrom_stop)

theorem cursor_monotonicity_counterexample:
  "getAnchor ex_offline ex_app heartRate = None \<and>
   fetchAndSync ex_offline ex_cfg heartRate ex_app = Some ex_after_failed_upload \<and>
   getAnchor ex_offline ex_after_failed_upload heartRate = Some 7 \<and>
   lastError ex_after_failed_upload = Some ''The Internet connection appears to be offline.'' \<and>
   lastSyncTime ex_after_failed_upload = None"
  by (simp add: engine_eval client_eval ex_after_failed_upload_def ex_new_payload_def strideFrom_0_1)

lemma ex_facts:
  "0 < batchSize ex_cfg" "idle ex_app" "syncManagerSet ex_app"
  "allSendable ex_online ex_cfg" "hkSampleType heartRate = Some (HKQuantityType ''HKQuantityTypeIdentifierHeartRate'')"
  "uploads ex_app = []" "anchoredQueries ex_app = []"
  by (simp_all add: client_eval idle_def allSendable_def)

theorem cursor_follows_fetch_witness:
  "(\<exists>s'. fetchAndSync ex_offline ex_cfg heartRate ex_app = Some s' \<and>
         defaults s' (anchorKey heartRate) = Some (UDData 7)) \<and>
   (\<exists>s''. fetchAndSync ex_online ex_cfg heartRate ex_app = Some s'' \<and>
         defaults s'' (anchorKey heartRate) = Some (UDData 7))"
proof -
  let ?st = "HKQuantityType ''HKQuantityTypeIdentifierHeartRate''"
  have r: "qError (anchoredResult ex_offline ex_cfg heartRate ex_app ?st) = None"
    "qNewAnchor (anchoredResult ex_offline ex_cfg heartRate ex_app ?st) = Some 7"
    "archivedData ex_offline 7 = Some 7"
    by (simp_all add: anchoredResult_def client_eval)
  have on: "ex_online = ex_offline\<lparr>URLSession_data := (\<lambda>k b. URLHTTP 200 (Some ''ok''))\<rparr>"
    by (simp add: ex_online_def)
  from cursor_follows_fetch[OF ex_facts(1), of ex_offline heartRate ex_app] r ex_facts(5)
  show ?thesis unfolding on by auto
qed

lemma honours_start_ex: "honours_start ex_online"
  unfolding honours_start_def
  by (auto simp: client_eval the_list_def split: option.splits)

theorem bounded_initial_fetch_witness:
  "(\<exists>s'. fetchAndSync ex_online ex_cfg heartRate ex_app = Some s' \<and>
      anchoredQueries s' =
        [(HKQuantityType ''HKQuantityTypeIdentifierHeartRate'', None,
          Some (predicateForSamples (Some 408000) None strictStartDate))] \<and>
      list_all (\<lambda>b. list_all (\<lambda>r. 408000 \<le> startTime r) (the_list (records b))) (uploads s')) \<and>
   startDate (sampleBase ex_old_sample) < 408000 \<and>
   (\<exists>s'. fetchAndSync ex_online ex_cfg heartRate
            (ex_app\<lparr>defaults := [anchorKey heartRate \<mapsto> UDData 7]\<rparr>) = Some s' \<and>
      anchoredQueries s' = [(HKQuantityType ''HKQuantityTypeIdentifierHeartRate'', Some 7, None)])"
proof -
  let ?st = "HKQuantityType ''HKQuantityTypeIdentifierHeartRate''"
  let ?app7 = "ex_app\<lparr>defaults := [anchorKey heartRate \<mapsto> UDData 7]\<rparr>"
  have a0: "getAnchor ex_online ex_app heartRate = None"
    by (simp add: getAnchor_def client_eval)
  have a7: "getAnchor ex_online ?app7 heartRate = Some 7"
    by (simp add: getAnchor_def anchorKey_def client_eval)
  have cal: "calendar_date_byAdding_day ex_online (- int (backfillDays ex_cfg))
      (Date_now ex_online (clockReads ex_app)) = Some 408000"
    by (simp add: client_eval)
  have q7: "anchoredQueries ?app7 = []" by (simp add: client_eval)
  from bounded_initial_fetch[OF ex_facts(1), of ex_online heartRate ex_app]
    a0 cal ex_facts(2,5,6,7) honours_start_ex
  have 1: "\<exists>s'. fetchAndSync ex_online ex_cfg heartRate ex_app = Some s' \<and>
      anchoredQueries s' = [(?st, None, Some (predicateForSamples (Some 408000) None strictStartDate))] \<and>
      list_all (\<lambda>b. list_all (\<lambda>r. 408000 \<le> startTime r) (the_list (records b))) (uploads s')"
    by (auto simp: list_all_iff)
  from bounded_initial_fetch[OF ex_facts(1), of ex_online heartRate ?app7] a7 q7 ex_facts(5)
  have 2: "\<exists>s'. fetchAndSync ex_online ex_cfg heartRate ?app7 = Some s' \<and>
      anchoredQueries s' = [(?st, Some 7, None)]"
    by auto
  have 3: "startDate (sampleBase ex_old_sample) < 408000" by (simp add: client_eval)
  from 1 2 3 show ?thesis by blast
qed

lemma allRecords_replicate:
  "allRecords ex_online heartRate (replicate n ex_new_sample) = replicate n ex_new_payload"
  by (induction n) (simp_all add: List.map_filter_simps ex_new_sample_def ex_new_payload_def
        quantity_toPayload_def)

lemma ex_many_records:
  "length (allRecords ex_online heartRate ex_many_samples) = 2500"
  "allRecords ex_online heartRate ex_many_samples \<noteq> []"
proof -
  show 1: "length (allRecords ex_online heartRate ex_many_samples) = 2500"
    unfolding ex_many_samples_def allRecords_replicate by (rule length_replicate)
  show "allRecords ex_online heartRate ex_many_samples \<noteq> []"
  proof
    assume "allRecords ex_online heartRate ex_many_samples = []"
    with 1 show False by simp
  qed
qed

theorem batch_assembly_witness:
  "\<exists>s' sent. syncData ex_online ex_cfg heartRate ex_many_samples [''A1''] ex_app = Some s' \<and>
      uploads s' = sent \<and> length sent = 3 \<and>
      length (the_list (records (sent ! 0))) = 1000 \<and>
      length (the_list (records (sent ! 1))) = 1000 \<and>
      length (the_list (records (sent ! 2))) = 500 \<and>
      concat (map (\<lambda>b. the_list (records b)) sent) = allRecords ex_online heartRate ex_many_samples \<and>
      workouts (sent ! 0) = None \<and> workouts (sent ! 1) = None \<and> workouts (sent ! 2) = None \<and>
      deletedUUIDs (sent ! 0) = [''A1''] \<and> deletedUUIDs (sent ! 1) = [] \<and> deletedUUIDs (sent ! 2) = []"
proof -
  have B: "batchSize ex_cfg = 1000" by (simp add: client_eval)
  have ar: "(2500 + 1000 - 1) div 1000 = (3::nat)" "2500 div 1000 = (2::nat)" "2500 mod 1000 = (500::nat)"
    by simp_all
  from batch_assembly[OF ex_facts(2,3,4,1), of heartRate ex_many_samples "[''A1'']"]
  obtain s' sent where
    sd: "syncData ex_online ex_cfg heartRate ex_many_samples [''A1''] ex_app = Some s'" and
    up: "uploads s' = sent" and
    rest: "length sent = 3 \<and>
      concat (map (\<lambda>b. the_list (records b)) sent) = allRecords ex_online heartRate ex_many_samples \<and>
      (\<forall>k<length sent. records (sent ! k) \<noteq> None \<and> workouts (sent ! k) = None \<and>
              length (the_list (records (sent ! k))) = (if k < 2 then 1000 else 500) \<and>
              deletedUUIDs (sent ! k) = (if k = 0 then [''A1''] else []))"
    unfolding Let_def ex_many_records(1) B ar ex_facts(6) using ex_many_records(2) by auto
  from rest have len: "length sent = 3" by simp
  have k: "(0::nat) < length sent" "(1::nat) < length sent" "(2::nat) < length sent"
    unfolding len by simp_all
  from rest have each: "\<forall>k<length sent. records (sent ! k) \<noteq> None \<and> workouts (sent ! k) = None \<and>
              length (the_list (records (sent ! k))) = (if k < 2 then 1000 else 500) \<and>
              deletedUUIDs (sent ! k) = (if k = 0 then [''A1''] else [])" by simp
  from each[rule_format, OF k(1)] each[rule_format, OF k(2)] each[rule_format, OF k(3)]
  have "workouts (sent ! 0) = None \<and> length (the_list (records (sent ! 0))) = 1000 \<and>
          deletedUUIDs (sent ! 0) = [''A1'']"
    "workouts (sent ! 1) = None \<and> length (the_list (records (sent ! 1))) = 1000 \<and>
          deletedUUIDs (sent ! 1) = []"
    "workouts (sent ! 2) = None \<and> length (the_list (records (sent ! 2))) = 500 \<and>
          deletedUUIDs (sent ! 2) = []"
    by simp_all
  with sd up rest show ?thesis by blast
qed

theorem batch_assembly_counterexample:
  "map_option uploads (syncData ex_online ex_cfg heartRate [] [''A1''] ex_app) = Some [ex_deletion_batch] \<and>
   records ex_deletion_batch = None \<and> workouts ex_deletion_batch = None \<and>
   deletedUUIDs ex_deletion_batch = [''A1''] \<and>
   length (allRecords ex_online heartRate []) = 0 \<and>
   (length (allRecords ex_online heartRate []) + batchSize ex_cfg - 1) div batchSize ex_cfg = 0"
  by (simp add: engine_eval client_eval)


end
